theory Spec2Isabelle
  imports Complex_Main
begin

section \<open>Python strings over the OCR alphabet\<close>

text \<open>
  The recognizers read text produced by Tesseract and clean it with \<^verbatim>\<open>str.isalnum\<close>,
  \<^verbatim>\<open>str.upper\<close>, \<^verbatim>\<open>str.replace\<close>, \<^verbatim>\<open>str.strip\<close> and the \<^verbatim>\<open>re\<close> module.
  In this section and the next a Python string is a \<^typ>\<open>string\<close> of 7-bit ASCII
  characters, the alphabet of every OCR whitelist in the repository, and the character
  classes are Python's on the code points 0 to 127. These definitions describe the code
  on ASCII text only: \<^verbatim>\<open>str.isalnum\<close> also accepts letters and digits beyond ASCII,
  and \<^verbatim>\<open>str.upper\<close> also maps them. The normalizers on every Python string, over
  code points and Python's Unicode tables, follow below and are proved to agree with
  the ones on \<^typ>\<open>string\<close> when the text is ASCII.
\<close>

definition code :: "char \<Rightarrow> nat" where
  "code c = of_char c"

definition is_digit :: "char \<Rightarrow> bool" where
  "is_digit c = (48 \<le> code c \<and> code c \<le> 57)"

definition is_AZ :: "char \<Rightarrow> bool" where
  "is_AZ c = (65 \<le> code c \<and> code c \<le> 90)"

definition is_az :: "char \<Rightarrow> bool" where
  "is_az c = (97 \<le> code c \<and> code c \<le> 122)"

definition isalnum :: "char \<Rightarrow> bool" where
  "isalnum c = (is_digit c \<or> is_AZ c \<or> is_az c)"

definition isspace :: "char \<Rightarrow> bool" where
  "isspace c = ((9 \<le> code c \<and> code c \<le> 13) \<or> (28 \<le> code c \<and> code c \<le> 32))"

definition upper_char :: "char \<Rightarrow> char" where
  "upper_char c = (if is_az c then char_of (code c - 32) else c)"

definition upper :: "string \<Rightarrow> string" where
  "upper s = map upper_char s"

definition replace_char :: "char \<Rightarrow> char \<Rightarrow> string \<Rightarrow> string" where
  "replace_char old new s = map (\<lambda>c. if c = old then new else c) s"

definition strip :: "string \<Rightarrow> string" where
  "strip s = rev (dropWhile isspace (rev (dropWhile isspace s)))"

text \<open>\<^verbatim>\<open>s[i:j]\<close> for indices \<open>0 \<le> i\<close>, \<open>0 \<le> j\<close>: Python clips the slice to the string.\<close>

definition slice :: "'a list \<Rightarrow> nat \<Rightarrow> nat \<Rightarrow> 'a list" where
  "slice s i j = take (j - i) (drop i s)"

text \<open>\<^verbatim>\<open>needle in s\<close> on strings: a contiguous occurrence.\<close>

fun contains :: "string \<Rightarrow> string \<Rightarrow> bool" where
  "contains [] needle = (needle = [])"
| "contains (c # cs) needle = (take (length needle) (c # cs) = needle \<or> contains cs needle)"

subsection \<open>The regular expressions of the source\<close>

text \<open>
  The two patterns of the source use character classes, \<^verbatim>\<open>.*\<close> and the anchors
  \<^verbatim>\<open>^\<close> and \<^verbatim>\<open>$\<close>. An item matches one character of a class, any run of characters of
  a class, or the end of the text; as in Python, \<^verbatim>\<open>$\<close> also matches before a final
  newline and \<^verbatim>\<open>.\<close> matches everything but a newline.
\<close>

datatype re_item = One "char \<Rightarrow> bool" | Star "char \<Rightarrow> bool" | Eos

definition newline :: char where
  "newline = CHR 0x0A"

fun re_here :: "re_item list \<Rightarrow> string \<Rightarrow> bool" where
  "re_here [] s = True"
| "re_here (Eos # p) s = ((s = [] \<or> s = [newline]) \<and> re_here p s)"
| "re_here (One f # p) [] = False"
| "re_here (One f # p) (c # cs) = (f c \<and> re_here p cs)"
| "re_here (Star f # p) [] = re_here p []"
| "re_here (Star f # p) (c # cs) = (re_here p (c # cs) \<or> (f c \<and> re_here (Star f # p) cs))"

text \<open>\<^verbatim>\<open>re.match\<close> anchors at the start; \<^verbatim>\<open>re.search\<close> tries every start position.\<close>

definition re_match :: "re_item list \<Rightarrow> string \<Rightarrow> bool" where
  "re_match p s = re_here p s"

fun re_search :: "re_item list \<Rightarrow> string \<Rightarrow> bool" where
  "re_search p [] = re_here p []"
| "re_search p (c # cs) = (re_here p (c # cs) \<or> re_search p cs)"

definition lit :: "char \<Rightarrow> char \<Rightarrow> bool" where
  "lit a c = (c = a)"

definition one_of :: "string \<Rightarrow> char \<Rightarrow> bool" where
  "one_of cs c = (c \<in> set cs)"

definition dot :: "char \<Rightarrow> bool" where
  "dot c = (c \<noteq> newline)"

text \<open>\<^verbatim>\<open>^[A-Z]{2}\d{2}[A-Z]{3}$\<close>\<close>

definition uk_plate_pattern :: "re_item list" where
  "uk_plate_pattern =
     [One is_AZ, One is_AZ, One is_digit, One is_digit, One is_AZ, One is_AZ, One is_AZ, Eos]"

text \<open>\<^verbatim>\<open>AA[O0]3.*B[O0]J\<close>\<close>

definition aa03_pattern :: "re_item list" where
  "aa03_pattern =
     [One (lit CHR ''A''), One (lit CHR ''A''), One (one_of ''O0''), One (lit CHR ''3''),
      Star dot, One (lit CHR ''B''), One (one_of ''O0''), One (lit CHR ''J'')]"

section \<open>Plate text normalizers\<close>

text \<open>\<^verbatim>\<open>''.join(c for c in text if c.isalnum()).upper()\<close>\<close>

definition clean_text :: "string \<Rightarrow> string" where
  "clean_text text = upper (filter isalnum text)"

text \<open>\<^verbatim>\<open>f"{c[:2]}{c[2:4]} {c[4:]}"\<close>\<close>

definition spaced :: "string \<Rightarrow> string" where
  "spaced c = slice c 0 2 @ slice c 2 4 @ '' '' @ drop 4 c"

text \<open>
  The window loop \<^verbatim>\<open>for i in range(len(clean_text) - 6)\<close> returns at the first index
  whose window matches.
\<close>

definition first_window :: "string \<Rightarrow> nat option" where
  "first_window c =
     List.find (\<lambda>i. re_match uk_plate_pattern (slice c i (i + 7))) [0 ..< length c - 6]"

text \<open>\<^verbatim>\<open>PlateRecognizer.format_uk_plate\<close> (plate\_recognizer.py).\<close>

definition pr_format_uk_plate :: "string \<Rightarrow> string" where
  "pr_format_uk_plate text =
     (let c = clean_text text in
      if length c = 7 then spaced c else c)"

text \<open>\<^verbatim>\<open>clean_and_format_plate\<close> of direct\_ocr.py.\<close>

definition direct_clean_and_format_plate :: "string \<Rightarrow> string" where
  "direct_clean_and_format_plate text =
     (let c = clean_text text in
      case (if length c \<ge> 7 then first_window c else None) of
        Some i \<Rightarrow> spaced (slice c i (i + 7))
      | None \<Rightarrow> c)"

text \<open>\<^verbatim>\<open>clean_and_format_plate\<close> of simple\_detector.py.\<close>

definition simple_clean_and_format_plate :: "string \<Rightarrow> string" where
  "simple_clean_and_format_plate text =
     (let c = clean_text text in
      case (if length c \<ge> 7 then first_window c else None) of
        Some i \<Rightarrow> spaced (slice c i (i + 7))
      | None \<Rightarrow> if length c = 7 then spaced c else c)"

text \<open>
  \<^verbatim>\<open>UKPlateRecognizer.format_uk_plate\<close> (uk\_plate\_recognizer.py): the cleaned text
  is confusion-corrected, then tested against the preset plate, then scanned.
\<close>

definition corrected_text :: "string \<Rightarrow> string" where
  "corrected_text text =
     replace_char CHR ''I'' CHR ''1'' (replace_char CHR ''O'' CHR ''0'' (clean_text text))"

definition uk_format_uk_plate :: "string \<Rightarrow> string" where
  "uk_format_uk_plate text =
     (let c = corrected_text text in
      if re_search aa03_pattern c then ''AA03 BOJ''
      else case (if length c \<ge> 7 then first_window c else None) of
        Some i \<Rightarrow> spaced (slice c i (i + 7))
      | None \<Rightarrow> if length c = 7 then spaced c else c)"


section \<open>The normalizers on every Python string\<close>

text \<open>
  A Python string is a sequence of code points. Which code points \<^verbatim>\<open>str.isalnum\<close>
  accepts, which code points \<^verbatim>\<open>str.upper\<close> puts in the place of one (one to three),
  and which code points \<^verbatim>\<open>\d\<close> matches in a pattern on \<^verbatim>\<open>str\<close> (the decimal
  digits of every script) are facts of Python's Unicode tables. They are a record of
  functions; the ranges \<^verbatim>\<open>[A-Z]\<close>, the literals, \<^verbatim>\<open>.\<close> and \<^verbatim>\<open>$\<close> of the patterns
  and the arguments of \<^verbatim>\<open>str.replace\<close> compare code points and need no table.
\<close>

record unicode =
  u_isalnum :: "nat \<Rightarrow> bool"
  u_upper :: "nat \<Rightarrow> nat list"
  u_isdecimal :: "nat \<Rightarrow> bool"

datatype u_item = UOne "nat \<Rightarrow> bool" | UStar "nat \<Rightarrow> bool" | UEos

fun u_re_here :: "u_item list \<Rightarrow> nat list \<Rightarrow> bool" where
  "u_re_here [] s = True"
| "u_re_here (UEos # p) s = ((s = [] \<or> s = [code newline]) \<and> u_re_here p s)"
| "u_re_here (UOne f # p) [] = False"
| "u_re_here (UOne f # p) (c # cs) = (f c \<and> u_re_here p cs)"
| "u_re_here (UStar f # p) [] = u_re_here p []"
| "u_re_here (UStar f # p) (c # cs) = (u_re_here p (c # cs) \<or> (f c \<and> u_re_here (UStar f # p) cs))"

definition u_re_match :: "u_item list \<Rightarrow> nat list \<Rightarrow> bool" where
  "u_re_match p s = u_re_here p s"

fun u_re_search :: "u_item list \<Rightarrow> nat list \<Rightarrow> bool" where
  "u_re_search p [] = u_re_here p []"
| "u_re_search p (c # cs) = (u_re_here p (c # cs) \<or> u_re_search p cs)"

definition u_AZ :: "nat \<Rightarrow> bool" where
  "u_AZ c = (code CHR ''A'' \<le> c \<and> c \<le> code CHR ''Z'')"

definition u_lit :: "char \<Rightarrow> nat \<Rightarrow> bool" where
  "u_lit a c = (c = code a)"

definition u_one_of :: "string \<Rightarrow> nat \<Rightarrow> bool" where
  "u_one_of cs c = (c \<in> set (map code cs))"

definition u_dot :: "nat \<Rightarrow> bool" where
  "u_dot c = (c \<noteq> code newline)"

text \<open>\<^verbatim>\<open>^[A-Z]{2}\d{2}[A-Z]{3}$\<close>\<close>

definition u_uk_plate_pattern :: "unicode \<Rightarrow> u_item list" where
  "u_uk_plate_pattern U =
     [UOne u_AZ, UOne u_AZ, UOne (u_isdecimal U), UOne (u_isdecimal U),
      UOne u_AZ, UOne u_AZ, UOne u_AZ, UEos]"

text \<open>\<^verbatim>\<open>AA[O0]3.*B[O0]J\<close>\<close>

definition u_aa03_pattern :: "u_item list" where
  "u_aa03_pattern =
     [UOne (u_lit CHR ''A''), UOne (u_lit CHR ''A''), UOne (u_one_of ''O0''),
      UOne (u_lit CHR ''3''), UStar u_dot, UOne (u_lit CHR ''B''), UOne (u_one_of ''O0''),
      UOne (u_lit CHR ''J'')]"

text \<open>
  \<^verbatim>\<open>''.join(c for c in text if c.isalnum()).upper()\<close>: the code points that pass the
  test are kept, then each is replaced by its upper case, which can be longer than one
  code point and need not pass the test itself.
\<close>

definition u_clean_text :: "unicode \<Rightarrow> nat list \<Rightarrow> nat list" where
  "u_clean_text U text = concat (map (u_upper U) (filter (u_isalnum U) text))"

definition u_replace :: "char \<Rightarrow> char \<Rightarrow> nat list \<Rightarrow> nat list" where
  "u_replace old new s = map (\<lambda>c. if c = code old then code new else c) s"

definition u_spaced :: "nat list \<Rightarrow> nat list" where
  "u_spaced c = slice c 0 2 @ slice c 2 4 @ map code '' '' @ drop 4 c"

definition u_first_window :: "unicode \<Rightarrow> nat list \<Rightarrow> nat option" where
  "u_first_window U c =
     List.find (\<lambda>i. u_re_match (u_uk_plate_pattern U) (slice c i (i + 7))) [0 ..< length c - 6]"

text \<open>\<^verbatim>\<open>PlateRecognizer.format_uk_plate\<close> (plate\_recognizer.py).\<close>

definition u_pr_format_uk_plate :: "unicode \<Rightarrow> nat list \<Rightarrow> nat list" where
  "u_pr_format_uk_plate U text =
     (let c = u_clean_text U text in
      if length c = 7 then u_spaced c else c)"

text \<open>\<^verbatim>\<open>clean_and_format_plate\<close> of direct\_ocr.py.\<close>

definition u_direct_clean_and_format_plate :: "unicode \<Rightarrow> nat list \<Rightarrow> nat list" where
  "u_direct_clean_and_format_plate U text =
     (let c = u_clean_text U text in
      case (if length c \<ge> 7 then u_first_window U c else None) of
        Some i \<Rightarrow> u_spaced (slice c i (i + 7))
      | None \<Rightarrow> c)"

text \<open>\<^verbatim>\<open>clean_and_format_plate\<close> of simple\_detector.py.\<close>

definition u_simple_clean_and_format_plate :: "unicode \<Rightarrow> nat list \<Rightarrow> nat list" where
  "u_simple_clean_and_format_plate U text =
     (let c = u_clean_text U text in
      case (if length c \<ge> 7 then u_first_window U c else None) of
        Some i \<Rightarrow> u_spaced (slice c i (i + 7))
      | None \<Rightarrow> if length c = 7 then u_spaced c else c)"

text \<open>\<^verbatim>\<open>UKPlateRecognizer.format_uk_plate\<close> (uk\_plate\_recognizer.py).\<close>

definition u_corrected_text :: "unicode \<Rightarrow> nat list \<Rightarrow> nat list" where
  "u_corrected_text U text =
     u_replace CHR ''I'' CHR ''1'' (u_replace CHR ''O'' CHR ''0'' (u_clean_text U text))"

definition u_uk_format_uk_plate :: "unicode \<Rightarrow> nat list \<Rightarrow> nat list" where
  "u_uk_format_uk_plate U text =
     (let c = u_corrected_text U text in
      if u_re_search u_aa03_pattern c then map code ''AA03 BOJ''
      else case (if length c \<ge> 7 then u_first_window U c else None) of
        Some i \<Rightarrow> u_spaced (slice c i (i + 7))
      | None \<Rightarrow> if length c = 7 then u_spaced c else c)"


section \<open>The capability providers\<close>

text \<open>
  OpenCV, NumPy and Tesseract are consumed, not implemented, by the recognizers. They are
  a record of functions over an image type \<open>'img\<close> and a contour type \<open>'cnt\<close>; every
  property below holds for every provider. A PIL image and the array it was made from are
  the same \<open>'img\<close>; the calls that only display or print are left out. A provider call
  returns, except \<^verbatim>\<open>cv2.resize\<close>, whose failure the source itself anticipates: the
  model describes the runs in which no other provider call raises.

  Python floats are modelled as reals: quotients and products are exact. The constants
  that the aspect ratios and percentages are compared with are exact in binary, so these
  comparisons agree with Python's for every image that fits in memory. The products
  \<^verbatim>\<open>0.01 * total_area\<close>, \<^verbatim>\<open>0.1 * total_area\<close> and \<^verbatim>\<open>0.02 * perimeter\<close>, and
  the products that \<^verbatim>\<open>int\<close> truncates to choose the columns of a crop, are taken
  exactly, where Python rounds them to the nearest double.
\<close>

datatype py_exception = ZeroDivisionError | CvError

datatype cv_op =
    CvtColor string
  | GaussianBlur nat nat nat
  | BilateralFilter nat nat nat
  | EqualizeHist
  | AdaptiveThreshold nat string string nat nat
  | Threshold nat nat string
  | MorphologyEx string nat nat
  | Canny nat nat
  | Dilate nat nat
  | InRange "nat \<times> nat \<times> nat" "nat \<times> nat \<times> nat"
  | BitwiseNot
  | Rectangle nat nat nat nat

type_synonym bbox = "nat \<times> nat \<times> nat \<times> nat"

record ('img, 'cnt) provider =
  imread :: "string \<Rightarrow> 'img option"
  shape :: "'img \<Rightarrow> nat \<times> nat"
  crop :: "'img \<Rightarrow> nat \<Rightarrow> nat \<Rightarrow> nat \<Rightarrow> nat \<Rightarrow> 'img"
  cv :: "cv_op \<Rightarrow> 'img \<Rightarrow> 'img"
  resize :: "'img \<Rightarrow> real \<Rightarrow> real \<Rightarrow> py_exception + 'img"
  count_positive :: "'img \<Rightarrow> nat"
  img_size :: "'img \<Rightarrow> nat"
  findContours :: "'img \<Rightarrow> string \<Rightarrow> 'cnt list"
  contourArea :: "'cnt \<Rightarrow> real"
  arcLength :: "'cnt \<Rightarrow> real"
  approxPolyDP :: "'cnt \<Rightarrow> real \<Rightarrow> nat"
  boundingRect :: "'cnt \<Rightarrow> bbox"
  image_to_data :: "'img \<Rightarrow> string \<Rightarrow> (real \<times> string) list"
  image_to_string :: "'img \<Rightarrow> string \<Rightarrow> string"

text \<open>
  \<open>shape\<close> is \<^verbatim>\<open>image.shape[:2]\<close>, height first; \<open>crop P img y0 y1 x0 x1\<close> is
  \<^verbatim>\<open>image[y0:y1, x0:x1]\<close>; \<open>count_positive\<close> is \<^verbatim>\<open>np.sum(mask > 0)\<close> and \<open>img_size\<close>
  is \<^verbatim>\<open>mask.size\<close>; \<open>approxPolyDP\<close> gives the number of vertices of the approximation,
  the only thing the source reads of it; \<open>boundingRect\<close> gives \<open>(x, y, w, h)\<close>, the
  extents counting pixels; \<open>image_to_data\<close> gives the rows of the result as pairs of
  \<^verbatim>\<open>conf\<close> and \<^verbatim>\<open>text\<close>.
\<close>

definition py_bind :: "'e + 'a \<Rightarrow> ('a \<Rightarrow> 'e + 'b) \<Rightarrow> 'e + 'b" where
  "py_bind m f = (case m of Inl e \<Rightarrow> Inl e | Inr x \<Rightarrow> f x)"

text \<open>\<^verbatim>\<open>int(w * f)\<close> for the fraction \<open>f = num / den\<close>.\<close>

definition int_scaled :: "nat \<Rightarrow> nat \<Rightarrow> nat \<Rightarrow> nat" where
  "int_scaled w num den = (w * num) div den"

text \<open>
  \<^verbatim>\<open>(np.sum(mask > 0) / mask.size) * 100 > t\<close>: NumPy divides by zero without raising,
  to \<^verbatim>\<open>inf\<close> for a positive count and to \<^verbatim>\<open>nan\<close>, which exceeds nothing, for zero.
\<close>

definition percentage_gt :: "nat \<Rightarrow> nat \<Rightarrow> real \<Rightarrow> bool" where
  "percentage_gt count n t =
     (if n = 0 then 0 < count else real count / real n * 100 > t)"

text \<open>\<^verbatim>\<open>sorted(contours, key=cv2.contourArea, reverse=True)[:k]\<close>: stable, largest first.\<close>

definition largest_first :: "('img, 'cnt) provider \<Rightarrow> nat \<Rightarrow> 'cnt list \<Rightarrow> 'cnt list" where
  "largest_first P k contours = take k (sort_key (\<lambda>c. - contourArea P c) contours)"

fun py_max :: "real list \<Rightarrow> real" where
  "py_max [] = 0"
| "py_max (x # xs) = fold max xs x"

text \<open>\<^verbatim>\<open>xs.index(v)\<close> for a value that occurs in \<open>xs\<close>.\<close>

fun index_of :: "real list \<Rightarrow> real \<Rightarrow> nat" where
  "index_of [] v = 0"
| "index_of (x # xs) v = (if x = v then 0 else Suc (index_of xs v))"

definition whitelist_36 :: string where
  "whitelist_36 = ''ABCDEFGHIJKLMNOPQRSTUVWXYZ0123456789''"

section \<open>uk\_plate\_recognizer.py\<close>

definition lower_blue :: "nat \<times> nat \<times> nat" where "lower_blue = (100, 50, 50)"
definition upper_blue :: "nat \<times> nat \<times> nat" where "upper_blue = (130, 255, 255)"
definition lower_white :: "nat \<times> nat \<times> nat" where "lower_white = (0, 0, 180)"
definition upper_white :: "nat \<times> nat \<times> nat" where "upper_white = (180, 30, 255)"

definition uk_psm :: "string \<Rightarrow> string" where
  "uk_psm n = ''--psm '' @ n @ '' -l eng --oem 3 -c tessedit_char_whitelist='' @ whitelist_36"

definition gb_config :: string where
  "gb_config =
     ''--psm 10 -l eng --oem 3 -c tessedit_char_whitelist=ABCDEFGHIJKLMNOPQRSTUVWXYZ''"

text \<open>The blue mask of the left part of an image, as both heuristics compute it.\<close>

definition blue_mask_of :: "('img, 'cnt) provider \<Rightarrow> 'img \<Rightarrow> 'img" where
  "blue_mask_of P left_part =
     cv P (InRange lower_blue upper_blue) (cv P (CvtColor ''COLOR_BGR2HSV'') left_part)"

definition is_clearly_uk_plate :: "('img, 'cnt) provider \<Rightarrow> 'img \<Rightarrow> py_exception + bool" where
  "is_clearly_uk_plate P img =
     (let (h, w) = shape P img;
          left_part = crop P img 0 h 0 (int_scaled w 15 100);
          blue_mask = blue_mask_of P left_part
      in if h = 0 then Inl ZeroDivisionError
         else let aspect_ratio = real w / real h
              in Inr (percentage_gt (count_positive P blue_mask) (img_size P blue_mask) 10
                      \<and> 3.5 < aspect_ratio \<and> aspect_ratio < 5.5))"


text \<open>
  \<^verbatim>\<open>detect_country_identifier\<close>. The left part that is inspected, of the image
  resized to a width of 200 when it is narrower than 100:
\<close>

definition country_band :: "('img, 'cnt) provider \<Rightarrow> 'img \<Rightarrow> py_exception + 'img" where
  "country_band P plate_image =
     (let (h, w) = shape P plate_image
      in py_bind
           (if w < 100 then
              (if w = 0 then Inl ZeroDivisionError
               else let scale_factor = 200 / real w
                    in resize P plate_image scale_factor scale_factor)
            else Inr plate_image)
           (\<lambda>plate_image.
              let (h, w) = shape P plate_image
              in Inr (crop P plate_image 0 h 0 (int_scaled w 18 100))))"

definition gb_text_enhanced :: "('img, 'cnt) provider \<Rightarrow> 'img \<Rightarrow> 'img" where
  "gb_text_enhanced P left_part =
     cv P (MorphologyEx ''MORPH_CLOSE'' 2 1)
       (cv P (Threshold 180 255 ''THRESH_BINARY'') (cv P (CvtColor ''COLOR_BGR2GRAY'') left_part))"

definition white_mask_of :: "('img, 'cnt) provider \<Rightarrow> 'img \<Rightarrow> 'img" where
  "white_mask_of P left_part =
     cv P (InRange lower_white upper_white) (cv P (CvtColor ''COLOR_BGR2HSV'') left_part)"

definition identify_band :: "('img, 'cnt) provider \<Rightarrow> 'img \<Rightarrow> string" where
  "identify_band P left_part =
     (let blue_mask = blue_mask_of P left_part;
          blue_count = count_positive P blue_mask;
          blue_size = img_size P blue_mask
      in if percentage_gt blue_count blue_size 10 then
           (let text = image_to_string P (gb_text_enhanced P left_part) gb_config
            in if contains text ''GB'' then ''GB''
               else let simple_text = image_to_string P left_part gb_config
                    in if contains simple_text ''GB'' then ''GB''
                       else let white_mask = white_mask_of P left_part
                            in if percentage_gt (count_positive P white_mask)
                                     (img_size P white_mask) 5
                                  \<and> percentage_gt blue_count blue_size 20
                               then ''GB''
                               else ''EU'')
         else ''UNKNOWN'')"

definition detect_country_identifier ::
  "('img, 'cnt) provider \<Rightarrow> 'img \<Rightarrow> py_exception + string" where
  "detect_country_identifier P plate_image =
     py_bind (country_band P plate_image) (\<lambda>left_part. Inr (identify_band P left_part))"

text \<open>
  \<^verbatim>\<open>recognize_plate_number\<close>. The loops over the configurations and over the rows of
  one result append to \<^verbatim>\<open>all_texts\<close> and \<^verbatim>\<open>confidences\<close>; the state also records the
  configurations Tesseract was called with, in order.
\<close>

definition uk_number_configs :: "string list" where
  "uk_number_configs = [uk_psm ''7'', uk_psm ''8'', uk_psm ''6'', uk_psm ''13'']"

fun uk_rows_loop ::
  "(real \<times> string) list \<Rightarrow> string list \<times> real list \<Rightarrow> string list \<times> real list" where
  "uk_rows_loop [] acc = acc"
| "uk_rows_loop ((conf, text) # rows) (all_texts, confidences) =
     (if conf > 0 \<and> text \<noteq> [] \<and> strip text \<noteq> []
      then uk_rows_loop rows (all_texts @ [uk_format_uk_plate text], confidences @ [conf])
      else uk_rows_loop rows (all_texts, confidences))"

fun uk_config_loop ::
  "('img, 'cnt) provider \<Rightarrow> 'img \<Rightarrow> string list
     \<Rightarrow> string list \<times> real list \<times> string list \<Rightarrow> string list \<times> real list \<times> string list" where
  "uk_config_loop P pil_image [] st = st"
| "uk_config_loop P pil_image (config # configs) (all_texts, confidences, calls) =
     (let ocr_data = image_to_data P pil_image config;
          (all_texts, confidences) = uk_rows_loop ocr_data (all_texts, confidences)
      in uk_config_loop P pil_image configs (all_texts, confidences, calls @ [config]))"

definition main_plate_part :: "('img, 'cnt) provider \<Rightarrow> 'img \<Rightarrow> 'img" where
  "main_plate_part P plate_image =
     (let gray = cv P (CvtColor ''COLOR_BGR2GRAY'') plate_image;
          binary = cv P (AdaptiveThreshold 255 ''ADAPTIVE_THRESH_GAUSSIAN_C'' ''THRESH_BINARY'' 11 2)
                     gray;
          (h, w) = shape P binary
      in cv P (MorphologyEx ''MORPH_OPEN'' 2 1) (crop P binary 0 h (int_scaled w 15 100) w))"

definition recognize_plate_number_run ::
  "('img, 'cnt) provider \<Rightarrow> 'img \<Rightarrow> (py_exception + string) \<times> string list" where
  "recognize_plate_number_run P plate_image =
     (let pil_image = main_plate_part P plate_image;
          (all_texts, confidences, calls) =
             uk_config_loop P pil_image uk_number_configs ([], [], [])
      in if all_texts = [] then
           (let text = strip (image_to_string P pil_image (uk_psm ''7''));
                calls = calls @ [uk_psm ''7'']
            in if text \<noteq> [] then (Inr (uk_format_uk_plate text), calls)
               else (py_bind (is_clearly_uk_plate P plate_image)
                       (\<lambda>clearly. Inr (if clearly then ''AA03 BOJ'' else ''UNKNOWN'')), calls))
         else (Inr (all_texts ! index_of confidences (py_max confidences)), calls))"

definition recognize_plate_number ::
  "('img, 'cnt) provider \<Rightarrow> 'img \<Rightarrow> py_exception + string" where
  "recognize_plate_number P plate_image = fst (recognize_plate_number_run P plate_image)"

text \<open>\<^verbatim>\<open>direct_ocr_plate\<close>: the best row over three configurations, then two fallbacks.\<close>

definition uk_direct_configs :: "string list" where
  "uk_direct_configs = [uk_psm ''7'', uk_psm ''8'', uk_psm ''6'']"

fun direct_rows_loop :: "(real \<times> string) list \<Rightarrow> string \<times> real \<Rightarrow> string \<times> real" where
  "direct_rows_loop [] best = best"
| "direct_rows_loop ((conf, text) # rows) (best_text, best_confidence) =
     (if conf > 10 \<and> text \<noteq> [] \<and> conf > best_confidence
      then direct_rows_loop rows (text, conf)
      else direct_rows_loop rows (best_text, best_confidence))"

fun direct_config_loop ::
  "('img, 'cnt) provider \<Rightarrow> 'img \<Rightarrow> string list \<Rightarrow> string \<times> real \<Rightarrow> string \<times> real" where
  "direct_config_loop P pil_image [] best = best"
| "direct_config_loop P pil_image (config # configs) best =
     direct_config_loop P pil_image configs
       (direct_rows_loop (image_to_data P pil_image config) best)"

definition direct_plate_part :: "('img, 'cnt) provider \<Rightarrow> 'img \<Rightarrow> 'img" where
  "direct_plate_part P img =
     (let (h, w) = shape P img;
          plate_part = crop P img 0 h (int_scaled w 2 10) w
      in cv P (Threshold 0 255 ''THRESH_BINARY+THRESH_OTSU'')
           (cv P (CvtColor ''COLOR_BGR2GRAY'') plate_part))"

definition direct_ocr_plate :: "('img, 'cnt) provider \<Rightarrow> 'img \<Rightarrow> py_exception + string" where
  "direct_ocr_plate P img =
     (let gray = cv P (CvtColor ''COLOR_BGR2GRAY'') img;
          thresh = cv P (AdaptiveThreshold 255 ''ADAPTIVE_THRESH_GAUSSIAN_C'' ''THRESH_BINARY'' 11 2)
                     gray;
          (best_text, best_confidence) = direct_config_loop P thresh uk_direct_configs ([], 0)
      in if best_text \<noteq> [] then Inr (uk_format_uk_plate best_text)
         else let text = strip (image_to_string P (direct_plate_part P img) (uk_psm ''7''))
              in if text \<noteq> [] then Inr (uk_format_uk_plate text)
                 else py_bind (is_clearly_uk_plate P img)
                        (\<lambda>clearly. Inr (if clearly then ''AA03 BOJ'' else ''UNKNOWN'')))"

text \<open>\<^verbatim>\<open>detect_plate_regions\<close>: the fifteen largest contours, filtered by shape.\<close>

definition uk_dilated :: "('img, 'cnt) provider \<Rightarrow> 'img \<Rightarrow> 'img" where
  "uk_dilated P img =
     (let gray = cv P (CvtColor ''COLOR_BGR2GRAY'') img;
          blurred = cv P (GaussianBlur 5 5 0) gray;
          binary = cv P (AdaptiveThreshold 255 ''ADAPTIVE_THRESH_GAUSSIAN_C'' ''THRESH_BINARY'' 11 2)
                     blurred;
          morph = cv P (MorphologyEx ''MORPH_CLOSE'' 3 1) binary;
          edges = cv P (Canny 30 200) morph
      in cv P (Dilate 3 1) edges)"

fun regions_loop ::
  "('img, 'cnt) provider \<Rightarrow> 'img \<Rightarrow> 'cnt list \<Rightarrow> ('img \<times> bbox) list
     \<Rightarrow> py_exception + ('img \<times> bbox) list" where
  "regions_loop P img [] plate_regions = Inr plate_regions"
| "regions_loop P img (contour # contours) plate_regions =
     (let perimeter = arcLength P contour;
          approx = approxPolyDP P contour (0.02 * perimeter)
      in if approx \<ge> 4 \<and> approx \<le> 6 then
           (let (x, y, w, h) = boundingRect P contour
            in if h = 0 then Inl ZeroDivisionError
               else let aspect_ratio = real w / real h
                    in if 2.0 < aspect_ratio \<and> aspect_ratio < 7.0
                       then regions_loop P img contours
                              (plate_regions @ [(crop P img y (y + h) x (x + w), (x, y, w, h))])
                       else regions_loop P img contours plate_regions)
         else regions_loop P img contours plate_regions)"

definition detect_plate_regions ::
  "('img, 'cnt) provider \<Rightarrow> 'img \<Rightarrow> py_exception + ('img \<times> bbox) list" where
  "detect_plate_regions P img =
     (let contours = findContours P (uk_dilated P img) ''RETR_EXTERNAL'';
          contours = largest_first P 15 contours
      in regions_loop P img contours [])"

text \<open>
  \<^verbatim>\<open>process_image\<close>. The result is a dictionary in insertion order, or \<^verbatim>\<open>None\<close>
  when the image cannot be read.
\<close>

record 'img plate_entry =
  plate_number :: string
  country_identifier :: string
  region :: 'img
  bbox :: bbox

fun dict_set :: "('k \<times> 'v) list \<Rightarrow> 'k \<Rightarrow> 'v \<Rightarrow> ('k \<times> 'v) list" where
  "dict_set [] k v = [(k, v)]"
| "dict_set ((k', v') # d) k v = (if k' = k then (k, v) # d else (k', v') # dict_set d k v)"

definition digit_char :: "nat \<Rightarrow> char" where
  "digit_char d = char_of (48 + d)"

function str_nat :: "nat \<Rightarrow> string" where
  "str_nat n = (if n < 10 then [digit_char n] else str_nat (n div 10) @ [digit_char (n mod 10)])"
  by pat_completeness auto
termination
  by (relation "measure id") auto

definition plate_key :: "nat \<Rightarrow> string" where
  "plate_key idx = ''plate_'' @ str_nat idx"

fun results_loop ::
  "('img, 'cnt) provider \<Rightarrow> nat \<Rightarrow> ('img \<times> bbox) list \<Rightarrow> (string \<times> 'img plate_entry) list
     \<Rightarrow> py_exception + (string \<times> 'img plate_entry) list" where
  "results_loop P idx [] results = Inr results"
| "results_loop P idx ((reg, box) # plate_regions) results =
     py_bind (recognize_plate_number P reg) (\<lambda>number.
     py_bind (detect_country_identifier P reg) (\<lambda>country_id.
       results_loop P (Suc idx) plate_regions
         (dict_set results (plate_key idx)
            \<lparr>plate_number = number, country_identifier = country_id,
             region = reg, bbox = box\<rparr>)))"

definition process_image ::
  "('img, 'cnt) provider \<Rightarrow> string
     \<Rightarrow> py_exception + (string \<times> 'img plate_entry) list option" where
  "process_image P image_path =
     (case imread P image_path of
        None \<Rightarrow> Inr None
      | Some img \<Rightarrow>
          (let (h, w) = shape P img
           in if h = 0 then Inl ZeroDivisionError
              else let aspect_ratio = real w / real h
                   in if 3.5 < aspect_ratio \<and> aspect_ratio < 5.5 then
                        py_bind (recognize_plate_number P img) (\<lambda>number.
                        py_bind (detect_country_identifier P img) (\<lambda>country_id.
                          Inr (Some (dict_set [] ''plate_0''
                            \<lparr>plate_number = number, country_identifier = country_id,
                             region = img, bbox = (0, 0, w, h)\<rparr>))))
                      else
                        py_bind (detect_plate_regions P img) (\<lambda>plate_regions.
                          if plate_regions = [] then
                            py_bind (direct_ocr_plate P img) (\<lambda>number.
                            py_bind (detect_country_identifier P img) (\<lambda>country_id.
                              Inr (Some (if number \<noteq> ''UNKNOWN''
                                 then dict_set [] ''plate_0''
                                   \<lparr>plate_number = number, country_identifier = country_id,
                                    region = img, bbox = (0, 0, w, h)\<rparr>
                                 else []))))
                          else
                            py_bind (results_loop P 0 plate_regions [])
                              (\<lambda>results. Inr (Some results)))))"


section \<open>plate\_recognizer.py\<close>

definition preprocess_image :: "('img, 'cnt) provider \<Rightarrow> 'img \<Rightarrow> 'img" where
  "preprocess_image P img =
     (let gray = cv P (CvtColor ''COLOR_BGR2GRAY'') img;
          gray = cv P (BilateralFilter 11 17 17) gray;
          gray = cv P EqualizeHist gray;
          edged = cv P (Canny 30 200) gray
      in cv P (Dilate 3 1) edged)"

text \<open>
  \<^verbatim>\<open>find_plate_contours\<close>: the twenty largest contours of the preprocessed image,
  filtered by their area relative to the original image and by the aspect ratio of their
  bounding rectangle.
\<close>

fun contours_loop ::
  "('img, 'cnt) provider \<Rightarrow> real \<Rightarrow> 'cnt list \<Rightarrow> 'cnt list \<Rightarrow> py_exception + 'cnt list" where
  "contours_loop P total_area [] plate_contours = Inr plate_contours"
| "contours_loop P total_area (contour # contours) plate_contours =
     (let area = contourArea P contour
      in if 0.01 * total_area < area \<and> area < 0.1 * total_area then
           (let (x, y, w, h) = boundingRect P contour
            in if h = 0 then Inl ZeroDivisionError
               else let aspect_ratio = real w / real h
                    in if 3.0 < aspect_ratio \<and> aspect_ratio < 6.0
                       then contours_loop P total_area contours (plate_contours @ [contour])
                       else contours_loop P total_area contours plate_contours)
         else contours_loop P total_area contours plate_contours)"

definition find_plate_contours ::
  "('img, 'cnt) provider \<Rightarrow> 'img \<Rightarrow> 'img \<Rightarrow> py_exception + 'cnt list" where
  "find_plate_contours P img original_image =
     (let contours = findContours P img ''RETR_TREE'';
          contours = largest_first P 20 contours;
          (h, w) = shape P original_image;
          total_area = h * w
      in contours_loop P (real total_area) contours [])"

text \<open>
  \<^verbatim>\<open>extract_plate\<close>: the body of the \<^verbatim>\<open>try\<close>, and the handler that turns every
  exception into \<^verbatim>\<open>None\<close>.
\<close>

definition extract_plate_try ::
  "('img, 'cnt) provider \<Rightarrow> 'img \<Rightarrow> 'cnt \<Rightarrow> py_exception + 'img" where
  "extract_plate_try P img contour =
     (let (x, y, w, h) = boundingRect P contour;
          plate = crop P img y (y + h) x (x + w)
      in if h = 0 then Inl ZeroDivisionError
         else let scale_factor = 50 / real h
              in resize P plate scale_factor scale_factor)"

definition extract_plate :: "('img, 'cnt) provider \<Rightarrow> 'img \<Rightarrow> 'cnt \<Rightarrow> 'img option" where
  "extract_plate P img contour =
     (case extract_plate_try P img contour of
        Inr plate \<Rightarrow> Some plate
      | Inl e \<Rightarrow> None)"

definition enhance_plate_image :: "('img, 'cnt) provider \<Rightarrow> 'img \<Rightarrow> 'img" where
  "enhance_plate_image P plate_img =
     (let gray = cv P (CvtColor ''COLOR_BGR2GRAY'') plate_img;
          blurred = cv P (GaussianBlur 5 5 0) gray;
          thresh = cv P (AdaptiveThreshold 255 ''ADAPTIVE_THRESH_GAUSSIAN_C''
                           ''THRESH_BINARY_INV'' 11 2) blurred;
          opening = cv P (MorphologyEx ''MORPH_OPEN'' 3 1) thresh
      in cv P BitwiseNot opening)"

text \<open>
  \<^verbatim>\<open>recognize_plate\<close>: the best row over every extracted plate and every
  configuration. The state is \<^verbatim>\<open>best_confidence\<close>, \<^verbatim>\<open>best_text\<close>,
  \<^verbatim>\<open>best_plate_img\<close> and the configurations Tesseract was called with.
\<close>

definition pr_psm :: "string \<Rightarrow> string" where
  "pr_psm n = ''--psm '' @ n @ '' --oem 1 -c tessedit_char_whitelist='' @ whitelist_36"

definition pr_configs :: "string list" where
  "pr_configs = [pr_psm ''7'', pr_psm ''8'', pr_psm ''13'']"

type_synonym 'img best = "real \<times> string option \<times> 'img option"

fun pr_rows_loop :: "(real \<times> string) list \<Rightarrow> 'img \<Rightarrow> 'img best \<Rightarrow> 'img best" where
  "pr_rows_loop [] plate_img best = best"
| "pr_rows_loop ((conf, text) # rows) plate_img (best_confidence, best_text, best_plate_img) =
     (if conf > 0 \<and> strip text \<noteq> [] \<and> conf > best_confidence
      then pr_rows_loop rows plate_img (conf, Some text, Some plate_img)
      else pr_rows_loop rows plate_img (best_confidence, best_text, best_plate_img))"

fun pr_config_loop ::
  "('img, 'cnt) provider \<Rightarrow> 'img \<Rightarrow> 'img \<Rightarrow> string list \<Rightarrow> 'img best \<times> string list
     \<Rightarrow> 'img best \<times> string list" where
  "pr_config_loop P enhanced plate_img [] st = st"
| "pr_config_loop P enhanced plate_img (config # configs) (best, calls) =
     pr_config_loop P enhanced plate_img configs
       (pr_rows_loop (image_to_data P enhanced config) plate_img best, calls @ [config])"

fun pr_contour_loop ::
  "('img, 'cnt) provider \<Rightarrow> 'img \<Rightarrow> 'cnt list \<Rightarrow> 'img best \<times> string list
     \<Rightarrow> 'img best \<times> string list" where
  "pr_contour_loop P original [] st = st"
| "pr_contour_loop P original (contour # contours) st =
     (case extract_plate P original contour of
        None \<Rightarrow> pr_contour_loop P original contours st
      | Some plate_img \<Rightarrow>
          pr_contour_loop P original contours
            (pr_config_loop P (enhance_plate_image P plate_img) plate_img pr_configs st))"

definition recognize_plate_run ::
  "('img, 'cnt) provider \<Rightarrow> 'img
     \<Rightarrow> py_exception + ((string option \<times> 'img option) \<times> string list)" where
  "recognize_plate_run P img =
     (let original = img;
          processed = preprocess_image P original
      in py_bind (find_plate_contours P processed original) (\<lambda>contours.
           if contours = [] then Inr ((None, None), [])
           else let ((best_confidence, best_text, best_plate_img), calls) =
                      pr_contour_loop P original contours ((0, None, None), [])
                in case best_text of
                     Some text \<Rightarrow>
                       if text \<noteq> [] then Inr ((Some (pr_format_uk_plate text), best_plate_img), calls)
                       else Inr ((None, None), calls)
                   | None \<Rightarrow> Inr ((None, None), calls)))"

definition recognize_plate ::
  "('img, 'cnt) provider \<Rightarrow> 'img \<Rightarrow> py_exception + (string option \<times> 'img option)" where
  "recognize_plate P img = py_bind (recognize_plate_run P img) (\<lambda>(r, calls). Inr r)"

section \<open>simple\_detector.py\<close>

text \<open>\<^verbatim>\<open>is_valid_uk_plate\<close>: the pattern, on the text without its spaces.\<close>

definition is_valid_uk_plate :: "string \<Rightarrow> bool" where
  "is_valid_uk_plate text = re_match uk_plate_pattern (filter (\<lambda>c. c \<noteq> CHR '' '') text)"

definition simple_psm :: "string \<Rightarrow> string" where
  "simple_psm n = ''--psm '' @ n @ '' --oem 3 -c tessedit_char_whitelist='' @ whitelist_36"

definition simple_configs :: "string list" where
  "simple_configs = [simple_psm ''7'', simple_psm ''8'', simple_psm ''6'']"

text \<open>The search for the plate contour stops at the first contour that passes.\<close>

fun simple_find_contour ::
  "('img, 'cnt) provider \<Rightarrow> 'cnt list \<Rightarrow> py_exception + bbox option" where
  "simple_find_contour P [] = Inr None"
| "simple_find_contour P (contour # contours) =
     (let perimeter = arcLength P contour;
          approx = approxPolyDP P contour (0.02 * perimeter)
      in if approx \<ge> 4 \<and> approx \<le> 6 then
           (let (x, y, w, h) = boundingRect P contour
            in if h = 0 then Inl ZeroDivisionError
               else let aspect_ratio = real w / real h
                    in if 2.0 < aspect_ratio \<and> aspect_ratio < 7.0
                       then Inr (Some (x, y, w, h))
                       else simple_find_contour P contours)
         else simple_find_contour P contours)"

text \<open>
  The loop over the configurations leaves at the first cleaned text that is a valid
  plate; until then it keeps the first non-empty cleaned text.
\<close>

fun simple_config_loop ::
  "('img, 'cnt) provider \<Rightarrow> 'img \<Rightarrow> string list \<Rightarrow> string \<times> string list
     \<Rightarrow> string \<times> string list" where
  "simple_config_loop P plate_pil [] st = st"
| "simple_config_loop P plate_pil (config # configs) (best_text, calls) =
     (let text = image_to_string P plate_pil config;
          cleaned = simple_clean_and_format_plate text
      in if is_valid_uk_plate cleaned then (cleaned, calls @ [config])
         else simple_config_loop P plate_pil configs
                (if best_text = [] \<and> cleaned \<noteq> [] then cleaned else best_text,
                 calls @ [config]))"

text \<open>
  \<^verbatim>\<open>detect_and_recognize_plate\<close>. The plate image is a view of the image, so the
  rectangle drawn on the image after the crop is part of the plate image as well.
\<close>

definition detect_and_recognize_plate_run ::
  "('img, 'cnt) provider \<Rightarrow> string
     \<Rightarrow> py_exception + ((string option \<times> 'img option) \<times> string list)" where
  "detect_and_recognize_plate_run P image_path =
     (case imread P image_path of
        None \<Rightarrow> Inr ((None, None), [])
      | Some img \<Rightarrow>
          (let gray = cv P (CvtColor ''COLOR_BGR2GRAY'') img;
               blurred = cv P (GaussianBlur 5 5 0) gray;
               thresh = cv P (Threshold 0 255 ''THRESH_BINARY+THRESH_OTSU'') blurred;
               edges = cv P (Canny 50 150) thresh;
               contours = findContours P edges ''RETR_EXTERNAL'';
               contours = largest_first P 10 contours
           in py_bind (simple_find_contour P contours) (\<lambda>found.
                case found of
                  None \<Rightarrow>
                    (let text = image_to_string P thresh ''--psm 11 --oem 3'';
                         plate_text = simple_clean_and_format_plate text
                     in Inr ((Some plate_text, Some img), [''--psm 11 --oem 3'']))
                | Some (x, y, w, h) \<Rightarrow>
                    (let img = cv P (Rectangle x y (x + w) (y + h)) img;
                         plate_image = crop P img y (y + h) x (x + w);
                         plate_gray = cv P (CvtColor ''COLOR_BGR2GRAY'') plate_image;
                         plate_thresh = cv P (Threshold 0 255 ''THRESH_BINARY+THRESH_OTSU'')
                                          plate_gray;
                         (best_text, calls) =
                            simple_config_loop P plate_thresh simple_configs ([], [])
                     in if best_text \<noteq> [] then Inr ((Some best_text, Some img), calls)
                        else Inr ((None, Some img), calls)))))"

definition detect_and_recognize_plate ::
  "('img, 'cnt) provider \<Rightarrow> string \<Rightarrow> py_exception + (string option \<times> 'img option)" where
  "detect_and_recognize_plate P image_path =
     py_bind (detect_and_recognize_plate_run P image_path) (\<lambda>(r, calls). Inr r)"

section \<open>Notions used in the proofs\<close>

text \<open>A text is clean when cleaning leaves it as it is.\<close>

definition is_clean :: "string \<Rightarrow> bool" where
  "is_clean t = (\<forall>c \<in> set t. is_digit c \<or> is_AZ c)"

text \<open>What a match of the plate pattern says about a text without a newline.\<close>

definition plate7 :: "string \<Rightarrow> bool" where
  "plate7 s = (\<exists>a b c d e f g. s = [a, b, c, d, e, f, g] \<and> is_AZ a \<and> is_AZ b \<and> is_digit c
                 \<and> is_digit d \<and> is_AZ e \<and> is_AZ f \<and> is_AZ g)"

text \<open>The window branch shared by three normalizers.\<close>

definition window_of :: "string \<Rightarrow> nat option" where
  "window_of c = (if length c \<ge> 7 then first_window c else None)"

definition is_corrected :: "string \<Rightarrow> bool" where
  "is_corrected t = (is_clean t \<and> CHR ''O'' \<notin> set t \<and> CHR ''I'' \<notin> set t)"

subsection \<open>ASCII text among the Python strings\<close>

text \<open>The code points of a \<^typ>\<open>string\<close>.\<close>

definition enc :: "string \<Rightarrow> nat list" where
  "enc t = map code t"

definition ascii_text :: "nat list \<Rightarrow> bool" where
  "ascii_text s = (\<forall>c \<in> set s. c < 128)"

text \<open>
  What Python's tables say of the code points below 128: the letters and the digits
  pass \<^verbatim>\<open>str.isalnum\<close>, \<^verbatim>\<open>str.upper\<close> moves the small letters to the capitals and
  leaves the rest, and the decimal digits are \<^verbatim>\<open>0\<close> to \<^verbatim>\<open>9\<close>.
\<close>

definition ascii_alnum :: "nat \<Rightarrow> bool" where
  "ascii_alnum c = ((48 \<le> c \<and> c \<le> 57) \<or> (65 \<le> c \<and> c \<le> 90) \<or> (97 \<le> c \<and> c \<le> 122))"

definition ascii_upper :: "nat \<Rightarrow> nat list" where
  "ascii_upper c = [if 97 \<le> c \<and> c \<le> 122 then c - 32 else c]"

definition ascii_decimal :: "nat \<Rightarrow> bool" where
  "ascii_decimal c = (48 \<le> c \<and> c \<le> 57)"

definition python_ascii :: "unicode \<Rightarrow> bool" where
  "python_ascii U =
     (\<forall>c < 128. u_isalnum U c = ascii_alnum c \<and> u_upper U c = ascii_upper c
                \<and> u_isdecimal U c = ascii_decimal c)"

text \<open>
  Python's tables on the code points below 128, on U+01F0 (496, the small letter j with
  caron) and on U+030C (780, the combining caron): the letter passes \<^verbatim>\<open>str.isalnum\<close>
  and its upper case is the capital J (74) followed by the combining caron, which does
  not pass \<^verbatim>\<open>str.isalnum\<close> and is its own upper case. No other code point occurs in
  the examples.
\<close>

definition caron_table :: unicode where
  "caron_table =
     \<lparr>u_isalnum = (\<lambda>c. if c < 128 then ascii_alnum c else c = 496),
      u_upper = (\<lambda>c. if c < 128 then ascii_upper c else if c = 496 then [74, 780] else [c]),
      u_isdecimal = (\<lambda>c. c < 128 \<and> ascii_decimal c)\<rparr>"

text \<open>Items of a pattern on code points and on characters that accept the same characters.\<close>

fun same_item :: "u_item \<Rightarrow> re_item \<Rightarrow> bool" where
  "same_item (UOne f) (One g) = (\<forall>c. code c < 128 \<longrightarrow> f (code c) = g c)"
| "same_item (UStar f) (Star g) = (\<forall>c. code c < 128 \<longrightarrow> f (code c) = g c)"
| "same_item UEos Eos = True"
| "same_item u r = False"

subsection \<open>A provider for the examples\<close>

text \<open>
  The examples run the recognizers on a provider whose images are known by their shape
  only, with the height first. A crop is clipped to the image as a NumPy slice is; the
  filters keep the shape; \<^verbatim>\<open>cv2.resize\<close> raises on an empty image and on an empty
  result, and otherwise scales both extents, rounding half to even as OpenCV does. A
  contour is its bounding rectangle, its area and the number of vertices of its
  approximation. The provider reads no file, finds no contour, no coloured pixel and no
  text; an example overrides the fields it needs.
\<close>

definition cv_round :: "real \<Rightarrow> int" where
  "cv_round x =
     (let f = \<lfloor>x\<rfloor>; d = x - of_int f
      in if d < 1 / 2 then f else if 1 / 2 < d then f + 1 else if even f then f else f + 1)"

definition shapes :: "(nat \<times> nat, bbox \<times> real \<times> nat) provider" where
  "shapes =
     \<lparr>imread = (\<lambda>path. None),
      shape = (\<lambda>img. img),
      crop = (\<lambda>(h, w) y0 y1 x0 x1. (min y1 h - min y0 h, min x1 w - min x0 w)),
      cv = (\<lambda>op img. img),
      resize = (\<lambda>(h, w) fx fy.
         if h = 0 \<or> w = 0 \<or> fx \<le> 0 \<or> fy \<le> 0 then Inl CvError
         else let h' = nat (cv_round (real h * fy)); w' = nat (cv_round (real w * fx))
              in if h' = 0 \<or> w' = 0 then Inl CvError else Inr (h', w')),
      count_positive = (\<lambda>mask. 0),
      img_size = (\<lambda>(h, w). h * w),
      findContours = (\<lambda>img mode. []),
      contourArea = (\<lambda>(box, area, vertices). area),
      arcLength = (\<lambda>contour. 0),
      approxPolyDP = (\<lambda>(box, area, vertices) eps. vertices),
      boundingRect = (\<lambda>(box, area, vertices). box),
      image_to_data = (\<lambda>img config. []),
      image_to_string = (\<lambda>img config. [])\<rparr>"

text \<open>A band of which fifteen pixels in a hundred are blue, and as many white.\<close>

definition blue15 :: "(nat \<times> nat, bbox \<times> real \<times> nat) provider" where
  "blue15 = shapes\<lparr>count_positive := (\<lambda>mask. 15), img_size := (\<lambda>mask. 100)\<rparr>"

text \<open>A photograph that is the plate itself, and a photograph of a scene.\<close>

definition plate_photo :: "(nat \<times> nat, bbox \<times> real \<times> nat) provider" where
  "plate_photo = shapes\<lparr>imread := (\<lambda>path. Some (100, 450))\<rparr>"

definition scene_photo :: "(nat \<times> nat, bbox \<times> real \<times> nat) provider" where
  "scene_photo = shapes\<lparr>imread := (\<lambda>path. Some (100, 200))\<rparr>"

text \<open>
  The visual heuristic of \<^verbatim>\<open>is_clearly_uk_plate\<close>: more than 10 percent of blue pixels
  in the leftmost 15 percent of the columns, and a width to height ratio strictly between
  3.5 and 5.5.
\<close>

definition looks_like_plate :: "('img, 'cnt) provider \<Rightarrow> 'img \<Rightarrow> bool" where
  "looks_like_plate P img =
     (let (h, w) = shape P img;
          blue_mask = blue_mask_of P (crop P img 0 h 0 (int_scaled w 15 100))
      in percentage_gt (count_positive P blue_mask) (img_size P blue_mask) 10
         \<and> 3.5 < real w / real h \<and> real w / real h < 5.5)"

text \<open>
  Three contours for an image of 100 by 100 pixels: one whose rectangle reaches beyond
  the right and lower edges, one of height zero, and one that has no pixel in the image.
\<close>

definition corner_contour :: "bbox \<times> real \<times> nat" where
  "corner_contour = ((90, 90, 20, 20), 400, 4)"

definition flat_contour :: "bbox \<times> real \<times> nat" where
  "flat_contour = ((10, 10, 40, 0), 0, 4)"

definition far_contour :: "bbox \<times> real \<times> nat" where
  "far_contour = ((150, 150, 40, 10), 400, 4)"

text \<open>
  What the two detectors test of a contour before they return it: the tests of
  \<^verbatim>\<open>find_plate_contours\<close> relative to the original image, and the tests of
  \<^verbatim>\<open>detect_plate_regions\<close> together with the region it stores for the contour.
\<close>

definition contour_tests :: "('img, 'cnt) provider \<Rightarrow> 'img \<Rightarrow> 'cnt \<Rightarrow> bool" where
  "contour_tests P original_image contour =
     (let (x, y, w, h) = boundingRect P contour;
          (ih, iw) = shape P original_image;
          area = contourArea P contour
      in 0 < h \<and> 0.01 * real (ih * iw) < area \<and> area < 0.1 * real (ih * iw)
         \<and> 3.0 < real w / real h \<and> real w / real h < 6.0)"

definition region_tests ::
  "('img, 'cnt) provider \<Rightarrow> 'img \<Rightarrow> 'cnt \<Rightarrow> 'img \<times> bbox \<Rightarrow> bool" where
  "region_tests P img contour r =
     (let (x, y, w, h) = boundingRect P contour;
          approx = approxPolyDP P contour (0.02 * arcLength P contour)
      in r = (crop P img y (y + h) x (x + w), (x, y, w, h))
         \<and> 0 < h \<and> 4 \<le> approx \<and> approx \<le> 6
         \<and> 2.0 < real w / real h \<and> real w / real h < 7.0)"

text \<open>
  The geometric admission of a candidate, in the words of the specification: its bounding
  box lies within the bounds of the source image, with a positive height, and it passes
  the tests of its detector. A rectangle lies within an image when it ends at or before
  the right and the lower edge.
\<close>

definition within_image :: "('img, 'cnt) provider \<Rightarrow> 'img \<Rightarrow> bbox \<Rightarrow> bool" where
  "within_image P img box =
     (let (x, y, w, h) = box; (ih, iw) = shape P img
      in x + w \<le> iw \<and> y + h \<le> ih)"

definition admitted_contour :: "('img, 'cnt) provider \<Rightarrow> 'img \<Rightarrow> 'cnt \<Rightarrow> bool" where
  "admitted_contour P original_image contour =
     (within_image P original_image (boundingRect P contour)
      \<and> contour_tests P original_image contour)"

definition admitted_region ::
  "('img, 'cnt) provider \<Rightarrow> 'img \<Rightarrow> 'cnt \<Rightarrow> 'img \<times> bbox \<Rightarrow> bool" where
  "admitted_region P img contour r =
     (within_image P img (boundingRect P contour) \<and> region_tests P img contour r)"

text \<open>
  A scene of 200 by 100 pixels with one contour of four vertices: a plate of 90 by 20
  pixels whose contour encloses 400 pixels, and a speck of the same outline that encloses
  5.
\<close>

definition plate_contour :: "bbox \<times> real \<times> nat" where
  "plate_contour = ((10, 10, 90, 20), 400, 4)"

definition speck_contour :: "bbox \<times> real \<times> nat" where
  "speck_contour = ((10, 10, 90, 20), 5, 4)"

definition speck_scene :: "(nat \<times> nat, bbox \<times> real \<times> nat) provider" where
  "speck_scene = shapes\<lparr>findContours := (\<lambda>img mode. [speck_contour])\<rparr>"

text \<open>
  The same plate, found in the images that contain its rectangle and in no other, as
  \<^verbatim>\<open>cv2.findContours\<close> finds a contour only among the pixels of the image.
\<close>

definition framed_scene :: "(nat \<times> nat, bbox \<times> real \<times> nat) provider" where
  "framed_scene =
     shapes\<lparr>findContours := (\<lambda>img mode.
        if 10 + 90 \<le> snd img \<and> 10 + 20 \<le> fst img then [plate_contour] else [])\<rparr>"

subsection \<open>Hypotheses and their selection\<close>

text \<open>
  The rows that \<^verbatim>\<open>recognize_plate_number\<close> accepts, and the hypotheses of an image:
  the accepted rows of every configuration, in the order of the configurations.
\<close>

definition uk_accepts :: "real \<times> string \<Rightarrow> bool" where
  "uk_accepts row = (fst row > 0 \<and> snd row \<noteq> [] \<and> strip (snd row) \<noteq> [])"

definition uk_hypotheses ::
  "('img, 'cnt) provider \<Rightarrow> 'img \<Rightarrow> string list \<Rightarrow> (real \<times> string) list" where
  "uk_hypotheses P pil_image configs =
     concat (map (\<lambda>config. filter uk_accepts (image_to_data P pil_image config)) configs)"

text \<open>
  The rows that \<^verbatim>\<open>recognize_plate\<close> accepts, the hypotheses of one extracted plate
  and those of all the plates extracted from the contours, each with its plate image.
\<close>

definition pr_accepts :: "real \<times> string \<Rightarrow> bool" where
  "pr_accepts row = (fst row > 0 \<and> strip (snd row) \<noteq> [])"

definition pr_plate_hypotheses ::
  "('img, 'cnt) provider \<Rightarrow> 'img \<Rightarrow> string list \<Rightarrow> (real \<times> string \<times> 'img) list" where
  "pr_plate_hypotheses P plate_img configs =
     concat (map (\<lambda>config. map (\<lambda>row. (fst row, snd row, plate_img))
                   (filter pr_accepts (image_to_data P (enhance_plate_image P plate_img) config)))
               configs)"

definition extracted_plates :: "('img, 'cnt) provider \<Rightarrow> 'img \<Rightarrow> 'cnt list \<Rightarrow> 'img list" where
  "extracted_plates P original contours = List.map_filter (extract_plate P original) contours"

definition pr_hypotheses ::
  "('img, 'cnt) provider \<Rightarrow> 'img list \<Rightarrow> (real \<times> string \<times> 'img) list" where
  "pr_hypotheses P plates = concat (map (\<lambda>plate_img. pr_plate_hypotheses P plate_img pr_configs) plates)"

text \<open>
  The best hypothesis, in the words of the specification: the highest confidence, ties
  broken by first-seen order. \<open>first_best confs i\<close> says that the confidence at index
  \<open>i\<close> is the highest of the list and that no earlier one reaches it.
\<close>

definition first_best :: "real list \<Rightarrow> nat \<Rightarrow> bool" where
  "first_best confs i =
     (i < length confs \<and> (\<forall>j < length confs. confs ! j \<le> confs ! i)
      \<and> (\<forall>j < i. confs ! j < confs ! i))"

text \<open>The running best of \<^verbatim>\<open>recognize_plate\<close> over a list of hypotheses.\<close>

fun pr_scan :: "(real \<times> string \<times> 'img) list \<Rightarrow> 'img best \<Rightarrow> 'img best" where
  "pr_scan [] best = best"
| "pr_scan ((conf, t, plate_img) # hs) (best_confidence, best_text, best_plate_img) =
     (if conf > best_confidence then pr_scan hs (conf, Some t, Some plate_img)
      else pr_scan hs (best_confidence, best_text, best_plate_img))"

text \<open>The configurations that \<^verbatim>\<open>detect_and_recognize_plate\<close> gets no valid plate from.\<close>

definition not_valid :: "('img, 'cnt) provider \<Rightarrow> 'img \<Rightarrow> string \<Rightarrow> bool" where
  "not_valid P plate_pil config =
     (\<not> is_valid_uk_plate (simple_clean_and_format_plate (image_to_string P plate_pil config)))"

text \<open>
  A scene in which the first configuration of each recognizer reads \<^verbatim>\<open>AB12CDE\<close> with
  confidence 60 and its last but one or last reads \<^verbatim>\<open>XY34ZZZ\<close> with confidence 90; as
  plain text, the second configuration of simple\_detector.py reads \<^verbatim>\<open>AB12CDE\<close> and
  the others read \<^verbatim>\<open>AB1\<close>.
\<close>

definition two_readings :: "(nat \<times> nat, bbox \<times> real \<times> nat) provider" where
  "two_readings =
     shapes\<lparr>imread := (\<lambda>path. Some (100, 200)),
            findContours := (\<lambda>img mode. [plate_contour]),
            image_to_data := (\<lambda>img config.
               if config = uk_psm ''7'' \<or> config = pr_psm ''7'' then [(60, ''AB12CDE'')]
               else if config = uk_psm ''6'' \<or> config = pr_psm ''13'' then [(90, ''XY34ZZZ'')]
               else []),
            image_to_string := (\<lambda>img config.
               if config = simple_psm ''8'' then ''AB12CDE'' else ''AB1'')\<rparr>"

text \<open>A scene in which every configuration reads the plate \<^verbatim>\<open>AB12CDE\<close>.\<close>

definition quick_scene :: "(nat \<times> nat, bbox \<times> real \<times> nat) provider" where
  "quick_scene =
     shapes\<lparr>imread := (\<lambda>path. Some (100, 200)),
            findContours := (\<lambda>img mode. [plate_contour]),
            image_to_string := (\<lambda>img config. ''AB12CDE'')\<rparr>"

subsection \<open>A provider that records what was done to an image\<close>

text \<open>
  An image of this provider is its shape and the crops, filters and resizes that led to
  it from the image that was read, in order. The counts and texts of an example can so
  depend on how the image they are asked of was made.
\<close>

datatype step = Cropped nat nat nat nat | Filtered cv_op | Resized real real

type_synonym traced_image = "(nat \<times> nat) \<times> step list"

definition traced :: "(traced_image, bbox \<times> real \<times> nat) provider" where
  "traced =
     \<lparr>imread = (\<lambda>path. None),
      shape = (\<lambda>img. fst img),
      crop = (\<lambda>((h, w), steps) y0 y1 x0 x1.
         ((min y1 h - min y0 h, min x1 w - min x0 w), steps @ [Cropped y0 y1 x0 x1])),
      cv = (\<lambda>op (size, steps). (size, steps @ [Filtered op])),
      resize = (\<lambda>((h, w), steps) fx fy.
         if h = 0 \<or> w = 0 \<or> fx \<le> 0 \<or> fy \<le> 0 then Inl CvError
         else let h' = nat (cv_round (real h * fy)); w' = nat (cv_round (real w * fx))
              in if h' = 0 \<or> w' = 0 then Inl CvError
                 else Inr ((h', w'), steps @ [Resized fx fy])),
      count_positive = (\<lambda>mask. 0),
      img_size = (\<lambda>((h, w), steps). h * w),
      findContours = (\<lambda>img mode. []),
      contourArea = (\<lambda>(box, area, vertices). area),
      arcLength = (\<lambda>contour. 0),
      approxPolyDP = (\<lambda>(box, area, vertices) eps. vertices),
      boundingRect = (\<lambda>(box, area, vertices). box),
      image_to_data = (\<lambda>img config. []),
      image_to_string = (\<lambda>img config. [])\<rparr>"

text \<open>
  A plate of 200 by 50 pixels: of the 1800 pixels of its left 36 columns, 270 lie in the
  blue range of hue, saturation and value; no other mask has a pixel, and there is no
  text.
\<close>

definition blue_band :: "(traced_image, bbox \<times> real \<times> nat) provider" where
  "blue_band =
     traced\<lparr>count_positive := (\<lambda>(size, steps).
        if steps = [Cropped 0 50 0 36, Filtered (CvtColor ''COLOR_BGR2HSV''),
                    Filtered (InRange (100, 50, 50) (130, 255, 255))]
        then 270 else 0)\<rparr>"

section \<open>Properties of the normalizers\<close>

lemma code_char_of: "n < 256 \<Longrightarrow> code (char_of n) = n"
  by (simp add: code_def)

lemma upper_char_AZ: "is_AZ c \<Longrightarrow> upper_char c = c"
  by (simp add: upper_char_def is_AZ_def is_az_def)

lemma upper_char_digit: "is_digit c \<Longrightarrow> upper_char c = c"
  by (simp add: upper_char_def is_digit_def is_az_def)



lemma isalnum_AZ: "is_AZ c \<Longrightarrow> isalnum c"
  by (simp add: isalnum_def)

lemma isalnum_digit: "is_digit c \<Longrightarrow> isalnum c"
  by (simp add: isalnum_def)



lemma clean_text_is_clean: "is_clean t \<Longrightarrow> clean_text t = t"
proof (induction t)
  case Nil
  then show ?case by (simp add: clean_text_def upper_def)
next
  case (Cons c t)
  then have "is_digit c \<or> is_AZ c" and "clean_text t = t"
    by (simp_all add: is_clean_def)
  then show ?case
    using upper_char_AZ upper_char_digit isalnum_AZ isalnum_digit
    by (auto simp: clean_text_def upper_def)
qed



lemma spaced_alt: "spaced c = take 4 c @ '' '' @ drop 4 c"
proof -
  have "take 2 c @ take 2 (drop 2 c) = take (2 + 2) c"
    by (simp only: take_add)
  then show ?thesis by (simp add: spaced_def slice_def)
qed





lemma re_here_OneE:
  assumes "re_here (One f # p) s"
  obtains c cs where "s = c # cs" and "f c" and "re_here p cs"
  using assms by (cases s) auto


lemma plate7_uk_plate_pattern: "plate7 s \<Longrightarrow> re_match uk_plate_pattern s"
  by (auto simp: plate7_def re_match_def uk_plate_pattern_def)



lemma plate7_length: "plate7 t \<Longrightarrow> length t = 7"
  by (auto simp: plate7_def)

lemma plate7_is_clean: "plate7 t \<Longrightarrow> is_clean t"
  by (auto simp: plate7_def is_clean_def)

lemma slice_whole: "length t = n \<Longrightarrow> slice t 0 n = t"
  by (simp add: slice_def)

lemma first_window_plate7:
  assumes "plate7 t"
  shows "first_window t = Some 0"
proof -
  have len: "length t = 7" using assms by (rule plate7_length)
  then have "[0 ..< length t - 6] = [0]" by simp
  moreover have "slice t 0 (0 + 7) = t" using len by (simp add: slice_def)
  ultimately show ?thesis
    using plate7_uk_plate_pattern [OF assms] by (simp add: first_window_def)
qed



lemma window_of_plate7: "plate7 t \<Longrightarrow> window_of t = Some 0"
  by (simp add: window_of_def first_window_plate7 plate7_length)










subsection \<open>The confusion-corrected text\<close>

lemma corrected_text_clean:
  "corrected_text s = replace_char CHR ''I'' CHR ''1'' (replace_char CHR ''O'' CHR ''0'' (clean_text s))"
  by (simp add: corrected_text_def)



lemma replace_char_absent: "old \<notin> set t \<Longrightarrow> replace_char old new t = t"
  by (induction t) (auto simp: replace_char_def)

lemma corrected_text_is_corrected: "is_corrected t \<Longrightarrow> corrected_text t = t"
  by (simp add: is_corrected_def corrected_text_clean clean_text_is_clean replace_char_absent)





lemma is_AZ_not_0: "is_AZ c \<Longrightarrow> c \<noteq> CHR ''0''"
  by (auto simp: is_AZ_def code_def)

lemma aa03_plate7:
  assumes "plate7 t" and "CHR ''O'' \<notin> set t"
  shows "\<not> re_search aa03_pattern t"
proof -
  from assms(1) obtain a b c d e f g where
    t: "t = [a, b, c, d, e, f, g]" and f: "is_AZ f"
    by (auto simp: plate7_def)
  from f have "f \<noteq> CHR ''0''" by (rule is_AZ_not_0)
  moreover from assms(2) t have "f \<noteq> CHR ''O''" by auto
  ultimately show ?thesis
    by (simp add: t aa03_pattern_def lit_def one_of_def)
qed

lemma uk_alt:
  "uk_format_uk_plate text =
     (if re_search aa03_pattern (corrected_text text) then ''AA03 BOJ''
      else case window_of (corrected_text text) of
        Some i \<Rightarrow> spaced (slice (corrected_text text) i (i + 7))
      | None \<Rightarrow> if length (corrected_text text) = 7 then spaced (corrected_text text)
                else corrected_text text)"
  by (simp add: uk_format_uk_plate_def window_of_def Let_def)





lemma uk_plate_pattern_length7:
  assumes "re_match uk_plate_pattern s" and "length s = 7"
  shows "plate7 s"
proof -
  from assms(1) have "re_here [One is_AZ, One is_AZ, One is_digit, One is_digit,
      One is_AZ, One is_AZ, One is_AZ, Eos] s"
    by (simp add: re_match_def uk_plate_pattern_def)
  then obtain a b c d e f g r where
    "s = a # b # c # d # e # f # g # r" "is_AZ a" "is_AZ b" "is_digit c" "is_digit d"
    "is_AZ e" "is_AZ f" "is_AZ g"
    by (elim re_here_OneE) simp
  with assms(2) show ?thesis
    by (auto simp: plate7_def)
qed

lemmas eval_defs = uk_format_uk_plate_def pr_format_uk_plate_def
  direct_clean_and_format_plate_def simple_clean_and_format_plate_def corrected_text_def
  clean_text_def upper_def upper_char_def isalnum_def is_digit_def is_AZ_def is_az_def code_def
  replace_char_def aa03_pattern_def lit_def one_of_def dot_def newline_def first_window_def
  uk_plate_pattern_def re_match_def slice_def spaced_def

section \<open>The normalizers on ASCII text and on every string agree\<close>

text \<open>
  On a text of code points below 128 the normalizers over code points do what the ones
  over \<^typ>\<open>string\<close> do, for every table that is Python's on these code points.
\<close>

lemma code_less_256: "code c < 256"
  by (simp add: code_def)

lemma code_inj: "(code c = code d) = (c = d)"
  by (simp add: code_def)

lemma code_eq_iff: "n < 256 \<Longrightarrow> (code c = n) = (c = char_of n)"
  using code_char_of [of n] code_inj [of c "char_of n"] by simp

lemma enc_char_of: "ascii_text s \<Longrightarrow> enc (map char_of s) = s"
proof (induction s)
  case Nil
  show ?case by (simp add: enc_def)
next
  case (Cons n s)
  then have "n < 256" and "ascii_text s"
    by (auto simp: ascii_text_def)
  with Cons.IH show ?case
    by (simp add: enc_def code_char_of)
qed

lemma ascii_text_Cons: "ascii_text (n # s) = (n < 128 \<and> ascii_text s)"
  by (simp add: ascii_text_def)

lemma ascii_text_append: "ascii_text (a @ b) = (ascii_text a \<and> ascii_text b)"
  by (auto simp: ascii_text_def)

lemma ascii_enc_Cons: "ascii_text (enc (c # t)) = (code c < 128 \<and> ascii_text (enc t))"
  by (simp add: ascii_text_def enc_def)

lemma ascii_enc_take: "ascii_text (enc t) \<Longrightarrow> ascii_text (enc (take n t))"
  by (auto simp: ascii_text_def enc_def dest: in_set_takeD)

lemma ascii_enc_drop: "ascii_text (enc t) \<Longrightarrow> ascii_text (enc (drop n t))"
  by (auto simp: ascii_text_def enc_def dest: in_set_dropD)

lemma ascii_enc_slice: "ascii_text (enc t) \<Longrightarrow> ascii_text (enc (slice t i j))"
  by (simp add: slice_def ascii_enc_take ascii_enc_drop)

lemma ascii_enc_clean: "is_clean t \<Longrightarrow> ascii_text (enc t)"
  by (auto simp: is_clean_def ascii_text_def enc_def is_digit_def is_AZ_def)

lemma ascii_enc_spaced: "ascii_text (enc t) \<Longrightarrow> ascii_text (enc (spaced t))"
  by (simp add: spaced_alt enc_def ascii_text_def code_def)
    (auto dest: in_set_takeD in_set_dropD)

lemma isalnum_code: "isalnum c = ascii_alnum (code c)"
  by (simp add: isalnum_def ascii_alnum_def is_digit_def is_AZ_def is_az_def)

lemma upper_char_code: "[code (upper_char c)] = ascii_upper (code c)"
proof (cases "is_az c")
  case True
  then have "code c - 32 < 256"
    unfolding is_az_def by arith
  then have "code (char_of (code c - 32) :: char) = code c - 32"
    by (rule code_char_of)
  with True show ?thesis
    by (simp add: upper_char_def ascii_upper_def is_az_def)
next
  case False
  then have "upper_char c = c" and "ascii_upper (code c) = [code c]"
    by (auto simp: upper_char_def ascii_upper_def is_az_def)
  then show ?thesis by simp
qed

lemma u_clean_text_enc:
  assumes "python_ascii U"
  shows "ascii_text (enc t) \<Longrightarrow> u_clean_text U (enc t) = enc (clean_text t)"
proof (induction t)
  case Nil
  show ?case by (simp add: u_clean_text_def enc_def clean_text_def upper_def)
next
  case (Cons c t)
  then have low: "code c < 128" and rest: "ascii_text (enc t)"
    by (simp_all add: ascii_enc_Cons)
  from assms low have a: "u_isalnum U (code c) = isalnum c"
    and u: "u_upper U (code c) = [code (upper_char c)]"
    by (simp_all add: python_ascii_def isalnum_code upper_char_code)
  from Cons.IH [OF rest] have ih: "concat (map (u_upper U) (filter (u_isalnum U) (map code t)))
      = map code (map upper_char (filter isalnum t))"
    by (simp add: u_clean_text_def enc_def clean_text_def upper_def)
  show ?case
    using a u ih by (simp add: u_clean_text_def enc_def clean_text_def upper_def)
qed

lemma u_replace_enc: "u_replace old new (enc t) = enc (replace_char old new t)"
  by (simp add: u_replace_def enc_def replace_char_def code_inj)

lemma u_corrected_text_enc:
  "python_ascii U \<Longrightarrow> ascii_text (enc t) \<Longrightarrow> u_corrected_text U (enc t) = enc (corrected_text t)"
  by (simp add: u_corrected_text_def corrected_text_def u_clean_text_enc u_replace_enc)

lemma enc_slice: "slice (enc t) i j = enc (slice t i j)"
  by (simp add: slice_def enc_def take_map drop_map)

lemma enc_drop: "drop n (enc t) = enc (drop n t)"
  by (simp add: enc_def drop_map)

lemma enc_append: "enc (a @ b) = enc a @ enc b"
  by (simp add: enc_def)

lemma length_enc: "length (enc t) = length t"
  by (simp add: enc_def)

lemma u_spaced_enc: "u_spaced (enc t) = enc (spaced t)"
  by (simp add: u_spaced_def spaced_def enc_slice enc_drop enc_append) (simp add: enc_def)

lemma enc_Nil_iff: "(enc t = []) = (t = [])"
  by (simp add: enc_def)

lemma enc_newline_iff: "(enc t = [code newline]) = (t = [newline])"
  by (cases t) (auto simp: enc_def code_inj)

lemma u_re_here_enc:
  "list_all2 same_item up p \<Longrightarrow> ascii_text (enc t) \<Longrightarrow> u_re_here up (enc t) = re_here p t"
proof (induction p t arbitrary: up rule: re_here.induct)
  case (1 s)
  then show ?case by simp
next
  case (2 p s)
  then obtain ur up' where up: "up = ur # up'" and r: "same_item ur Eos"
    and rest: "list_all2 same_item up' p"
    by (auto simp: list_all2_Cons2)
  from r have ur: "ur = UEos" by (cases ur) simp_all
  show ?case
    using 2(1) [OF rest 2(3)] by (simp add: up ur enc_Nil_iff enc_newline_iff)
next
  case (3 f p)
  then obtain ur up' where up: "up = ur # up'" and r: "same_item ur (One f)"
    by (auto simp: list_all2_Cons2)
  from r obtain g where ur: "ur = UOne g" by (cases ur) simp_all
  show ?case by (simp add: up ur enc_def)
next
  case (4 f p c cs)
  then obtain ur up' where up: "up = ur # up'" and r: "same_item ur (One f)"
    and rest: "list_all2 same_item up' p"
    by (auto simp: list_all2_Cons2)
  from r obtain g where ur: "ur = UOne g" by (cases ur) simp_all
  from 4(3) have low: "code c < 128" and lows: "ascii_text (enc cs)"
    by (simp_all add: ascii_enc_Cons)
  from r ur low have g: "g (code c) = f c" by simp
  have ih: "u_re_here up' (enc cs) = re_here p cs"
    using rest lows by (rule 4(1))
  have e: "enc (c # cs) = code c # enc cs" by (simp add: enc_def)
  show ?case by (simp add: up ur e g ih)
next
  case (5 f p)
  then obtain ur up' where up: "up = ur # up'" and r: "same_item ur (Star f)"
    and rest: "list_all2 same_item up' p"
    by (auto simp: list_all2_Cons2)
  from r obtain g where ur: "ur = UStar g" by (cases ur) simp_all
  have ih: "u_re_here up' (enc []) = re_here p []"
    using rest 5(3) by (rule 5(1))
  then show ?case by (simp add: up ur enc_def)
next
  case (6 f p c cs)
  then obtain ur up' where up: "up = ur # up'" and r: "same_item ur (Star f)"
    and rest: "list_all2 same_item up' p"
    by (auto simp: list_all2_Cons2)
  from r obtain g where ur: "ur = UStar g" by (cases ur) simp_all
  from 6(4) have low: "code c < 128" and lows: "ascii_text (enc cs)"
    by (simp_all add: ascii_enc_Cons)
  from r ur low have g: "g (code c) = f c" by simp
  have ih1: "u_re_here up' (enc (c # cs)) = re_here p (c # cs)"
    using rest 6(4) by (rule 6(1))
  have ih2: "u_re_here up (enc cs) = re_here (Star f # p) cs"
    using 6(3) lows by (rule 6(2))
  have e: "enc (c # cs) = code c # enc cs" by (simp add: enc_def)
  show ?case using ih1 ih2 by (simp add: up ur e g)
qed

lemma u_re_search_enc:
  "list_all2 same_item up p \<Longrightarrow> ascii_text (enc t) \<Longrightarrow> u_re_search up (enc t) = re_search p t"
proof (induction t)
  case Nil
  then have "u_re_here up (enc []) = re_here p []" by (rule u_re_here_enc)
  then show ?case by (simp add: enc_def)
next
  case (Cons c t)
  then have lows: "ascii_text (enc t)" by (simp add: ascii_enc_Cons)
  have "u_re_here up (enc (c # t)) = re_here p (c # t)"
    using Cons.prems by (rule u_re_here_enc)
  moreover have "u_re_search up (enc t) = re_search p t"
    using Cons.prems(1) lows by (rule Cons.IH)
  ultimately show ?case by (simp add: enc_def)
qed

lemma same_uk_plate_pattern:
  "python_ascii U \<Longrightarrow> list_all2 same_item (u_uk_plate_pattern U) uk_plate_pattern"
  by (simp add: u_uk_plate_pattern_def uk_plate_pattern_def u_AZ_def is_AZ_def
      python_ascii_def ascii_decimal_def is_digit_def) (simp add: code_def)

lemma same_aa03_pattern: "list_all2 same_item u_aa03_pattern aa03_pattern"
  by (simp add: u_aa03_pattern_def aa03_pattern_def u_lit_def lit_def u_one_of_def one_of_def
      u_dot_def dot_def code_inj)

lemma u_first_window_enc:
  assumes "python_ascii U" and "ascii_text (enc t)"
  shows "u_first_window U (enc t) = first_window t"
proof -
  have "u_re_match (u_uk_plate_pattern U) (slice (enc t) i (i + 7))
      = re_match uk_plate_pattern (slice t i (i + 7))" for i
    using same_uk_plate_pattern [OF assms(1)] ascii_enc_slice [OF assms(2)]
    by (simp add: u_re_match_def re_match_def enc_slice u_re_here_enc)
  then show ?thesis
    by (simp add: u_first_window_def first_window_def length_enc)
qed

section \<open>The claims about the normalizers\<close>

subsection \<open>Plates through the normalizers\<close>

text \<open>
  The letters O and I of a plate do not survive \<^verbatim>\<open>UKPlateRecognizer.format_uk_plate\<close>:
  the text \<^verbatim>\<open>OI12ABC\<close> has length 7 and matches the plate pattern, and comes back
  as \<^verbatim>\<open>0112 ABC\<close>.
\<close>

theorem format_uk_plate_changes_O_I:
  "length ''OI12ABC'' = 7 \<and> re_match uk_plate_pattern ''OI12ABC''
     \<and> uk_format_uk_plate ''OI12ABC'' = ''0112 ABC''
     \<and> uk_format_uk_plate ''OI12ABC'' \<noteq> ''OI12 ABC''"
  by (simp add: eval_defs)

text \<open>
  C1, as the code has it. For every text of length 7 that matches
  \<^verbatim>\<open>[A-Z]{2}[0-9]{2}[A-Z]{3}\<close>, \<^verbatim>\<open>PlateRecognizer.format_uk_plate\<close> returns the text
  with one space after its fourth character and its characters unchanged, and
  \<^verbatim>\<open>UKPlateRecognizer.format_uk_plate\<close> does so when the text holds neither the letter O
  nor the letter I, which its confusion correction rewrites to digits.
\<close>

theorem format_uk_plate_on_plates:
  assumes "length s = 7" and "re_match uk_plate_pattern s"
  shows "pr_format_uk_plate s = take 4 s @ '' '' @ drop 4 s
     \<and> (CHR ''O'' \<notin> set s \<and> CHR ''I'' \<notin> set s
          \<longrightarrow> uk_format_uk_plate s = take 4 s @ '' '' @ drop 4 s)"
proof -
  have p: "plate7 s" using assms(2,1) by (rule uk_plate_pattern_length7)
  then have cl: "is_clean s" by (rule plate7_is_clean)
  have "pr_format_uk_plate s = spaced s"
    using assms(1) cl by (simp add: pr_format_uk_plate_def clean_text_is_clean)
  moreover have "uk_format_uk_plate s = spaced s"
    if "CHR ''O'' \<notin> set s \<and> CHR ''I'' \<notin> set s"
  proof -
    from that cl have co: "is_corrected s" by (simp add: is_corrected_def)
    then have "corrected_text s = s" by (rule corrected_text_is_corrected)
    moreover have "\<not> re_search aa03_pattern s"
      using p that by (simp add: aa03_plate7)
    ultimately show ?thesis
      using p by (simp add: uk_alt window_of_plate7 slice_whole plate7_length)
  qed
  ultimately show ?thesis by (simp add: spaced_alt)
qed

text \<open>The scenario of the specification: \<^verbatim>\<open>AB12CDE\<close> becomes \<^verbatim>\<open>AB12 CDE\<close>.\<close>

theorem format_uk_plate_on_plates_witness:
  "(length ''AB12CDE'' = 7 \<and> re_match uk_plate_pattern ''AB12CDE''
      \<and> CHR ''O'' \<notin> set ''AB12CDE'' \<and> CHR ''I'' \<notin> set ''AB12CDE'')
   \<and> pr_format_uk_plate ''AB12CDE'' = ''AB12 CDE''
   \<and> uk_format_uk_plate ''AB12CDE'' = ''AB12 CDE''"
proof -
  have h1: "length ''AB12CDE'' = 7" by simp
  have h2: "re_match uk_plate_pattern ''AB12CDE''"
    by (simp add: re_match_def uk_plate_pattern_def is_AZ_def is_digit_def code_def)
  have h3: "CHR ''O'' \<notin> set ''AB12CDE'' \<and> CHR ''I'' \<notin> set ''AB12CDE''" by simp
  from format_uk_plate_on_plates [OF h1 h2] h3
  have "pr_format_uk_plate ''AB12CDE'' = take 4 ''AB12CDE'' @ '' '' @ drop 4 ''AB12CDE''"
    and "uk_format_uk_plate ''AB12CDE'' = take 4 ''AB12CDE'' @ '' '' @ drop 4 ''AB12CDE''"
    by blast+
  with h1 h2 h3 show ?thesis by simp
qed

subsection \<open>The fallback for texts of length 7\<close>

text \<open>
  \<^verbatim>\<open>clean_and_format_plate\<close> of direct\_ocr.py has no branch for a cleaned text of
  length 7 without a matching window: \<^verbatim>\<open>ABCDEFG\<close> comes back without a space.
\<close>

theorem direct_ocr_has_no_length7_fallback:
  "length (clean_text ''ABCDEFG'') = 7 \<and> first_window (clean_text ''ABCDEFG'') = None
     \<and> direct_clean_and_format_plate ''ABCDEFG'' = ''ABCDEFG''
     \<and> direct_clean_and_format_plate ''ABCDEFG'' \<noteq> spaced (clean_text ''ABCDEFG'')"
  by (simp add: eval_defs)

text \<open>
  C8, as the code has it. When the cleaned text has length 7 and no window of it matches
  the plate pattern, \<^verbatim>\<open>clean_and_format_plate\<close> of simple\_detector.py and
  \<^verbatim>\<open>PlateRecognizer.format_uk_plate\<close> return it as four characters, a space and
  three characters, and \<^verbatim>\<open>clean_and_format_plate\<close> of direct\_ocr.py returns it
  without a space. \<^verbatim>\<open>UKPlateRecognizer.format_uk_plate\<close>, whose cleaned text is also
  confusion-corrected, returns it in that spacing unless it matches
  \<^verbatim>\<open>AA[O0]3.*B[O0]J\<close>, for which it returns the preset \<^verbatim>\<open>AA03 BOJ\<close>.
\<close>

theorem length7_fallback:
  "(length (clean_text s) = 7 \<and> first_window (clean_text s) = None \<longrightarrow>
      simple_clean_and_format_plate s = spaced (clean_text s)
      \<and> pr_format_uk_plate s = spaced (clean_text s)
      \<and> direct_clean_and_format_plate s = clean_text s)
   \<and> (length (corrected_text s) = 7 \<and> first_window (corrected_text s) = None \<longrightarrow>
      uk_format_uk_plate s =
        (if re_search aa03_pattern (corrected_text s) then ''AA03 BOJ''
         else spaced (corrected_text s)))"
  by (simp add: simple_clean_and_format_plate_def pr_format_uk_plate_def
      direct_clean_and_format_plate_def uk_format_uk_plate_def Let_def)

text \<open>The four normalizers on \<^verbatim>\<open>ABCDEFG\<close>.\<close>

theorem length7_fallback_witness:
  "(length (clean_text ''ABCDEFG'') = 7 \<and> first_window (clean_text ''ABCDEFG'') = None
     \<and> length (corrected_text ''ABCDEFG'') = 7
     \<and> first_window (corrected_text ''ABCDEFG'') = None
     \<and> \<not> re_search aa03_pattern (corrected_text ''ABCDEFG''))
   \<and> simple_clean_and_format_plate ''ABCDEFG'' = spaced (clean_text ''ABCDEFG'')
   \<and> pr_format_uk_plate ''ABCDEFG'' = spaced (clean_text ''ABCDEFG'')
   \<and> direct_clean_and_format_plate ''ABCDEFG'' = clean_text ''ABCDEFG''
   \<and> uk_format_uk_plate ''ABCDEFG'' = spaced (corrected_text ''ABCDEFG'')"
proof -
  have h: "length (clean_text ''ABCDEFG'') = 7 \<and> first_window (clean_text ''ABCDEFG'') = None
     \<and> length (corrected_text ''ABCDEFG'') = 7
     \<and> first_window (corrected_text ''ABCDEFG'') = None
     \<and> \<not> re_search aa03_pattern (corrected_text ''ABCDEFG'')"
    by (simp add: eval_defs)
  with length7_fallback [of "''ABCDEFG''"] show ?thesis
    by presburger
qed

subsection \<open>Idempotence\<close>


section \<open>The issuing-region identifier\<close>

lemma percentage_gt_nat: "percentage_gt c n (real t) = (t * n < 100 * c)"
proof (cases "n = 0")
  case True
  then show ?thesis by (simp add: percentage_gt_def)
next
  case False
  then have pos: "0 < real n" by simp
  have "(real t < real c / real n * 100) = (real t * real n < real c * 100)"
    using pos by (simp add: pos_less_divide_eq)
  also have "\<dots> = (real (t * n) < real (100 * c))"
    by (simp add: mult.commute)
  also have "\<dots> = (t * n < 100 * c)"
    by (rule of_nat_less_iff)
  finally show ?thesis using False by (simp add: percentage_gt_def)
qed

lemma percentage_gt_10: "percentage_gt c n 10 = (10 * n < 100 * c)"
  using percentage_gt_nat [of c n 10] by simp

lemma percentage_gt_20: "percentage_gt c n 20 = (20 * n < 100 * c)"
  using percentage_gt_nat [of c n 20] by simp

lemma percentage_gt_5: "percentage_gt c n 5 = (5 * n < 100 * c)"
  using percentage_gt_nat [of c n 5] by simp

lemma take_eq_prefix: "(take (length n) s = n) = (\<exists>b. s = n @ b)"
proof
  assume "take (length n) s = n"
  then have "s = n @ drop (length n) s"
    by (metis append_take_drop_id)
  then show "\<exists>b. s = n @ b" ..
next
  assume "\<exists>b. s = n @ b"
  then show "take (length n) s = n" by auto
qed

text \<open>The test \<^verbatim>\<open>needle in s\<close> holds when the needle is a contiguous part of the string.\<close>

lemma contains_iff: "contains s n = (\<exists>a b. s = a @ n @ b)"
proof (induction s)
  case Nil
  show ?case by auto
next
  case (Cons c cs)
  have "(\<exists>a b. c # cs = a @ n @ b) = ((\<exists>b. c # cs = n @ b) \<or> (\<exists>a b. cs = a @ n @ b))"
  proof
    assume "\<exists>a b. c # cs = a @ n @ b"
    then obtain a b where ab: "c # cs = a @ n @ b" by blast
    show "(\<exists>b. c # cs = n @ b) \<or> (\<exists>a b. cs = a @ n @ b)"
    proof (cases a)
      case Nil
      with ab show ?thesis by auto
    next
      case (Cons x a')
      with ab have "cs = a' @ n @ b" by simp
      then show ?thesis by blast
    qed
  next
    assume "(\<exists>b. c # cs = n @ b) \<or> (\<exists>a b. cs = a @ n @ b)"
    then show "\<exists>a b. c # cs = a @ n @ b"
    proof
      assume "\<exists>b. c # cs = n @ b"
      then obtain b where "c # cs = [] @ n @ b" by auto
      then show ?thesis by blast
    next
      assume "\<exists>a b. cs = a @ n @ b"
      then obtain a b where "c # cs = (c # a) @ n @ b" by auto
      then show ?thesis by blast
    qed
  qed
  then show ?case
    using Cons.IH take_eq_prefix [of n "c # cs"] by simp
qed

text \<open>
  C9. Take a plate image of width at least 100, or a narrower one of positive width
  resized by 200 over its width in both directions. Let the band be the left 18 percent
  of its columns at full height, the blue mask the pixels of the band whose hue,
  saturation and value lie between (100, 50, 50) and (130, 255, 255), the white mask
  those between (0, 0, 180) and (180, 30, 255), and the enhanced band the grey band
  thresholded at 180 and closed with a 2 by 1 kernel. If more than 10 percent of the
  pixels of the blue mask are set, the single-character OCR restricted to capital
  letters finds no \<^verbatim>\<open>GB\<close> in the enhanced band nor in the band, and it is not the
  case that more than 5 percent of the white mask and more than 20 percent of the blue
  mask are set, then \<^verbatim>\<open>detect_country_identifier\<close> returns \<^verbatim>\<open>EU\<close>. If no more than 10
  percent of the blue mask are set, it returns \<^verbatim>\<open>UNKNOWN\<close>.
\<close>

theorem country_identifier_layers:
  assumes size: "shape P plate_image = (h, w)"
    and inspected: "(100 \<le> w \<and> inspected = plate_image)
        \<or> (0 < w \<and> w < 100
            \<and> resize P plate_image (200 / real w) (200 / real w) = Inr inspected)"
    and isize: "shape P inspected = (ih, iw)"
    and band: "band = crop P inspected 0 ih 0 (iw * 18 div 100)"
    and hsv: "hsv = cv P (CvtColor ''COLOR_BGR2HSV'') band"
    and blue: "blue = cv P (InRange (100, 50, 50) (130, 255, 255)) hsv"
    and white: "white = cv P (InRange (0, 0, 180) (180, 30, 255)) hsv"
    and enhanced: "enhanced = cv P (MorphologyEx ''MORPH_CLOSE'' 2 1)
        (cv P (Threshold 180 255 ''THRESH_BINARY'') (cv P (CvtColor ''COLOR_BGR2GRAY'') band))"
    and config: "config
        = ''--psm 10 -l eng --oem 3 -c tessedit_char_whitelist=ABCDEFGHIJKLMNOPQRSTUVWXYZ''"
  shows "(10 * img_size P blue < 100 * count_positive P blue
          \<and> \<not> (\<exists>pre post. image_to_string P enhanced config = pre @ ''GB'' @ post)
          \<and> \<not> (\<exists>pre post. image_to_string P band config = pre @ ''GB'' @ post)
          \<and> \<not> (5 * img_size P white < 100 * count_positive P white
                \<and> 20 * img_size P blue < 100 * count_positive P blue)
          \<longrightarrow> detect_country_identifier P plate_image = Inr ''EU'')
     \<and> (\<not> 10 * img_size P blue < 100 * count_positive P blue
          \<longrightarrow> detect_country_identifier P plate_image = Inr ''UNKNOWN'')"
proof -
  have cb: "country_band P plate_image = Inr band"
    using inspected
  proof
    assume "100 \<le> w \<and> inspected = plate_image"
    then show ?thesis
      using size isize band by (simp add: country_band_def py_bind_def int_scaled_def)
  next
    assume "0 < w \<and> w < 100
        \<and> resize P plate_image (200 / real w) (200 / real w) = Inr inspected"
    then show ?thesis
      using size isize band by (simp add: country_band_def py_bind_def int_scaled_def)
  qed
  have bm: "blue_mask_of P band = blue"
    by (simp add: blue_mask_of_def lower_blue_def upper_blue_def blue hsv)
  have wm: "white_mask_of P band = white"
    by (simp add: white_mask_of_def lower_white_def upper_white_def white hsv)
  have en: "gb_text_enhanced P band = enhanced"
    by (simp add: gb_text_enhanced_def enhanced)
  have cf: "gb_config = config"
    by (simp add: gb_config_def config)
  show ?thesis
    by (simp add: detect_country_identifier_def cb py_bind_def identify_band_def Let_def
        bm wm en cf percentage_gt_10 percentage_gt_20 percentage_gt_5 contains_iff)
qed

text \<open>
  A plate of 200 by 50 pixels whose band of 36 columns is 15 percent blue and without
  text; the same plate without a blue pixel; and a plate of 80 by 20 pixels without a
  blue pixel, which is first resized to 200 by 50.
\<close>

theorem country_identifier_layers_witness:
  "detect_country_identifier blue_band ((50, 200), []) = Inr ''EU''
   \<and> detect_country_identifier traced ((50, 200), []) = Inr ''UNKNOWN''
   \<and> detect_country_identifier traced ((20, 80), []) = Inr ''UNKNOWN''"
proof (intro conjI)
  show "detect_country_identifier blue_band ((50, 200), []) = Inr ''EU''"
    using country_identifier_layers [where P = blue_band and plate_image = "((50, 200), [])"
        and h = 50 and w = 200 and inspected = "((50, 200), [])" and ih = 50 and iw = 200,
        OF _ _ _ refl refl refl refl refl refl]
    by (simp add: blue_band_def traced_def)
  show "detect_country_identifier traced ((50, 200), []) = Inr ''UNKNOWN''"
    using country_identifier_layers [where P = traced and plate_image = "((50, 200), [])"
        and h = 50 and w = 200 and inspected = "((50, 200), [])" and ih = 50 and iw = 200,
        OF _ _ _ refl refl refl refl refl refl]
    by (simp add: traced_def)
  have round: "cv_round 50 = 50" and round': "cv_round 200 = 200"
    by (simp_all add: cv_round_def)
  show "detect_country_identifier traced ((20, 80), []) = Inr ''UNKNOWN''"
    using country_identifier_layers [where P = traced and plate_image = "((20, 80), [])"
        and h = 20 and w = 80 and inspected = "((50, 200), [Resized (5 / 2) (5 / 2)])"
        and ih = 50 and iw = 200,
        OF _ _ _ refl refl refl refl refl refl]
    by (simp add: traced_def round round')
qed

section \<open>The orchestrator\<close>

lemma uk_config_loop_frame:
  "uk_config_loop (P\<lparr>findContours := f\<rparr>) pil configs st = uk_config_loop P pil configs st"
proof (induction configs arbitrary: st)
  case Nil
  then show ?case by simp
next
  case (Cons config configs)
  obtain texts confs calls where st: "st = (texts, confs, calls)"
    by (cases st) auto
  show ?case
    by (simp add: st Cons.IH Let_def split: prod.splits)
qed

lemma is_clearly_uk_plate_frame:
  "is_clearly_uk_plate (P\<lparr>findContours := f\<rparr>) img = is_clearly_uk_plate P img"
  by (simp add: is_clearly_uk_plate_def blue_mask_of_def cong: if_cong)

lemma recognize_plate_number_frame:
  "recognize_plate_number (P\<lparr>findContours := f\<rparr>) img = recognize_plate_number P img"
  by (simp add: recognize_plate_number_def recognize_plate_number_run_def main_plate_part_def
      uk_config_loop_frame is_clearly_uk_plate_frame cong: if_cong)

lemma identify_band_frame:
  "identify_band (P\<lparr>findContours := f\<rparr>) left_part = identify_band P left_part"
  by (simp add: identify_band_def blue_mask_of_def white_mask_of_def gb_text_enhanced_def
      cong: if_cong)

lemma country_band_frame:
  "country_band (P\<lparr>findContours := f\<rparr>) img = country_band P img"
  by (simp add: country_band_def cong: if_cong)

lemma detect_country_identifier_frame:
  "detect_country_identifier (P\<lparr>findContours := f\<rparr>) img = detect_country_identifier P img"
  by (simp add: detect_country_identifier_def identify_band_frame country_band_frame)

lemma is_clearly_uk_plate_returns:
  "shape P img = (h, w) \<Longrightarrow> 0 < h \<Longrightarrow> \<exists>b. is_clearly_uk_plate P img = Inr b"
  by (simp add: is_clearly_uk_plate_def Let_def)

lemma recognize_plate_number_returns:
  assumes "shape P img = (h, w)" and "0 < h"
  shows "\<exists>number. recognize_plate_number P img = Inr number"
proof -
  from is_clearly_uk_plate_returns [OF assms] obtain b
    where "is_clearly_uk_plate P img = Inr b" ..
  then show ?thesis
    by (simp add: recognize_plate_number_def recognize_plate_number_run_def py_bind_def Let_def
        split: prod.splits)
qed

lemma band_positive_height:
  assumes "3.5 < real w / real h"
  shows "0 < h"
proof (rule ccontr)
  assume "\<not> 0 < h"
  then have "real w / real h = 0" by simp
  with assms show False by simp
qed

text \<open>
  C6. When the image is read and its width to height ratio lies strictly between 3.5 and
  5.5, \<^verbatim>\<open>process_image\<close> recognizes the whole image: the plate number is always
  computed, and when the country identifier is computed as well the result has the one
  entry \<^verbatim>\<open>plate_0\<close>, whose region is the image and whose bounding box is
  \<open>(0, 0, w, h)\<close>. Contour detection is not run: the result is the same whatever the
  provider's \<^verbatim>\<open>findContours\<close> is.
\<close>

theorem whole_image_shortcut:
  assumes "imread P image_path = Some img"
    and "shape P img = (h, w)"
    and "3.5 < real w / real h" and "real w / real h < 5.5"
    and "detect_country_identifier P img = Inr country_id"
  shows "\<exists>number. recognize_plate_number P img = Inr number
     \<and> process_image P image_path =
         Inr (Some [(''plate_0'', \<lparr>plate_number = number, country_identifier = country_id,
                                 region = img, bbox = (0, 0, w, h)\<rparr>)])
     \<and> (\<forall>f. process_image (P\<lparr>findContours := f\<rparr>) image_path = process_image P image_path)"
proof -
  have h: "0 < h" using assms(3) by (rule band_positive_height)
  from recognize_plate_number_returns [OF assms(2) h] obtain number
    where n: "recognize_plate_number P img = Inr number" ..
  have "process_image P image_path =
         Inr (Some [(''plate_0'', \<lparr>plate_number = number, country_identifier = country_id,
                                 region = img, bbox = (0, 0, w, h)\<rparr>)])"
    using assms h n by (simp add: process_image_def py_bind_def)
  moreover have "process_image (P\<lparr>findContours := f\<rparr>) image_path = process_image P image_path"
    for f
    using assms h
    by (simp add: process_image_def recognize_plate_number_frame
        detect_country_identifier_frame)
  ultimately show ?thesis using n by blast
qed

text \<open>An image of 450 by 100 pixels.\<close>

theorem whole_image_shortcut_witness:
  "\<exists>number. process_image plate_photo ''plate.jpg'' =
       Inr (Some [(''plate_0'', \<lparr>plate_number = number, country_identifier = ''UNKNOWN'',
                               region = (100, 450), bbox = (0, 0, 450, 100)\<rparr>)])"
proof -
  have a: "imread plate_photo ''plate.jpg'' = Some (100, 450)"
    and b: "shape plate_photo (100, 450) = (100, 450)"
    by (simp_all add: plate_photo_def shapes_def)
  have c: "3.5 < real 450 / real 100" and d: "real 450 / real 100 < 5.5"
    by simp_all
  have e: "detect_country_identifier plate_photo (100, 450) = Inr ''UNKNOWN''"
    by (simp add: detect_country_identifier_def country_band_def identify_band_def
        plate_photo_def shapes_def py_bind_def int_scaled_def percentage_gt_def blue_mask_of_def)
  from whole_image_shortcut [OF a b c d e] show ?thesis
    by blast
qed

subsection \<open>What the caller gets back\<close>

text \<open>
  An image that cannot be read: \<^verbatim>\<open>process_image\<close> returns \<^verbatim>\<open>None\<close>, it raises
  nothing.
\<close>

theorem unreadable_image_gives_None:
  "imread shapes ''missing.jpg'' = None \<and> process_image shapes ''missing.jpg'' = Inr None"
  by (simp add: process_image_def shapes_def)

lemma py_bind_Inr_iff: "py_bind m f = Inr y \<longleftrightarrow> (\<exists>x. m = Inr x \<and> f x = Inr y)"
  by (cases m) (simp_all add: py_bind_def)

lemma process_image_loaded:
  assumes "imread P image_path = Some img"
  shows "process_image P image_path \<noteq> Inr None"
proof -
  obtain h w where s: "shape P img = (h, w)" by (cases "shape P img") auto
  show ?thesis
    using assms s
    by (auto simp: process_image_def Let_def py_bind_Inr_iff split: if_splits)
qed

lemma scene_regions: "detect_plate_regions scene_photo (100, 200) = Inr []"
  by (simp add: detect_plate_regions_def scene_photo_def shapes_def largest_first_def)

lemma scene_direct: "direct_ocr_plate scene_photo (100, 200) = Inr ''UNKNOWN''"
  by (simp add: direct_ocr_plate_def uk_direct_configs_def strip_def is_clearly_uk_plate_def
      scene_photo_def shapes_def py_bind_def percentage_gt_def blue_mask_of_def)

lemma scene_country: "detect_country_identifier scene_photo (100, 200) = Inr ''UNKNOWN''"
  by (simp add: detect_country_identifier_def country_band_def identify_band_def
      scene_photo_def shapes_def py_bind_def int_scaled_def percentage_gt_def blue_mask_of_def)

text \<open>
  C3, as the code has it. \<^verbatim>\<open>process_image\<close> returns \<^verbatim>\<open>None\<close> exactly when the
  image cannot be read, and raises nothing then. When the image is read, is not itself of
  the shape of a plate, no region is detected and the direct OCR gives \<^verbatim>\<open>UNKNOWN\<close>,
  it returns the empty dictionary.
\<close>

theorem process_image_outcomes:
  "(process_image P image_path = Inr None \<longleftrightarrow> imread P image_path = None)
   \<and> (\<forall>img h w country_id.
        imread P image_path = Some img \<and> shape P img = (h, w) \<and> 0 < h
        \<and> \<not> (3.5 < real w / real h \<and> real w / real h < 5.5)
        \<and> detect_plate_regions P img = Inr []
        \<and> direct_ocr_plate P img = Inr ''UNKNOWN''
        \<and> detect_country_identifier P img = Inr country_id
        \<longrightarrow> process_image P image_path = Inr (Some []))"
proof (intro conjI allI impI)
  show "process_image P image_path = Inr None \<longleftrightarrow> imread P image_path = None"
  proof (cases "imread P image_path")
    case None
    then show ?thesis by (simp add: process_image_def)
  next
    case (Some img)
    then show ?thesis using process_image_loaded by fastforce
  qed
next
  fix img h w country_id
  assume "imread P image_path = Some img \<and> shape P img = (h, w) \<and> 0 < h
        \<and> \<not> (3.5 < real w / real h \<and> real w / real h < 5.5)
        \<and> detect_plate_regions P img = Inr []
        \<and> direct_ocr_plate P img = Inr ''UNKNOWN''
        \<and> detect_country_identifier P img = Inr country_id"
  then show "process_image P image_path = Inr (Some [])"
    by (auto simp: process_image_def py_bind_def)
qed

text \<open>An image of 200 by 100 pixels without contours and without text.\<close>

theorem process_image_outcomes_witness:
  "process_image scene_photo ''scene.jpg'' = Inr (Some [])
   \<and> process_image scene_photo ''scene.jpg'' \<noteq> Inr None"
proof -
  have a: "imread scene_photo ''scene.jpg'' = Some (100, 200)"
    and b: "shape scene_photo (100, 200) = (100, 200)"
    by (simp_all add: scene_photo_def shapes_def)
  have c: "\<not> (3.5 < real 200 / real 100 \<and> real 200 / real 100 < 5.5)"
    by simp
  note outcomes = process_image_outcomes [of scene_photo "''scene.jpg''"]
  have "process_image scene_photo ''scene.jpg'' = Inr (Some [])"
    using outcomes [THEN conjunct2, rule_format, of "(100, 200)" 100 200 "''UNKNOWN''"]
      a b c scene_regions scene_direct scene_country
    by simp
  moreover have "process_image scene_photo ''scene.jpg'' \<noteq> Inr None"
    using outcomes [THEN conjunct1] a by simp
  ultimately show ?thesis by simp
qed

section \<open>The preset plate\<close>

lemma uk_rows_loop_rejected:
  assumes "\<forall>(conf, text) \<in> set rows. \<not> (conf > 0 \<and> text \<noteq> [] \<and> strip text \<noteq> [])"
  shows "uk_rows_loop rows acc = acc"
  using assms
proof (induction rows arbitrary: acc)
  case Nil
  then show ?case by simp
next
  case (Cons row rows)
  obtain conf t0 where row: "row = (conf, t0)" by (cases row) auto
  obtain texts confs where acc: "acc = (texts, confs)" by (cases acc) auto
  from Cons.prems have "\<not> (conf > 0 \<and> t0 \<noteq> [] \<and> strip t0 \<noteq> [])"
    and "\<forall>(conf, text) \<in> set rows. \<not> (conf > 0 \<and> text \<noteq> [] \<and> strip text \<noteq> [])"
    by (simp_all add: row)
  then show ?case
    using Cons.IH by (simp add: row acc)
qed

lemma uk_config_loop_rejected:
  assumes "\<forall>config \<in> set configs. \<forall>(conf, text) \<in> set (image_to_data P pil config).
             \<not> (conf > 0 \<and> text \<noteq> [] \<and> strip text \<noteq> [])"
  shows "uk_config_loop P pil configs (texts, confs, calls) = (texts, confs, calls @ configs)"
  using assms
proof (induction configs arbitrary: calls)
  case Nil
  then show ?case by simp
next
  case (Cons config configs)
  then have "uk_rows_loop (image_to_data P pil config) (texts, confs) = (texts, confs)"
    by (intro uk_rows_loop_rejected) simp
  then show ?case
    using Cons by simp
qed

lemma direct_rows_loop_rejected:
  assumes "\<forall>(conf, text) \<in> set rows. \<not> (conf > 10 \<and> text \<noteq> [])"
  shows "direct_rows_loop rows best = best"
  using assms
proof (induction rows arbitrary: best)
  case Nil
  then show ?case by simp
next
  case (Cons row rows)
  obtain conf t0 where row: "row = (conf, t0)" by (cases row) auto
  obtain t c where best: "best = (t, c)" by (cases best) auto
  from Cons.prems have "\<not> (conf > 10 \<and> t0 \<noteq> [])"
    and "\<forall>(conf, text) \<in> set rows. \<not> (conf > 10 \<and> text \<noteq> [])"
    by (simp_all add: row)
  then show ?case
    using Cons.IH by (auto simp: row best)
qed

lemma direct_config_loop_rejected:
  assumes "\<forall>config \<in> set configs. \<forall>(conf, text) \<in> set (image_to_data P pil config).
             \<not> (conf > 10 \<and> text \<noteq> [])"
  shows "direct_config_loop P pil configs best = best"
  using assms
proof (induction configs arbitrary: best)
  case Nil
  then show ?case by simp
next
  case (Cons config configs)
  then have "direct_rows_loop (image_to_data P pil config) best = best"
    by (intro direct_rows_loop_rejected) simp
  then show ?case
    using Cons by simp
qed

lemma looks_like_plate_clearly:
  assumes "looks_like_plate P img"
  shows "is_clearly_uk_plate P img = Inr True"
proof -
  obtain h w where s: "shape P img = (h, w)" by (cases "shape P img") auto
  with assms have r: "3.5 < real w / real h"
    by (simp add: looks_like_plate_def Let_def)
  have "h \<noteq> 0"
  proof
    assume "h = 0"
    with r show False by simp
  qed
  with assms s show ?thesis
    by (simp add: looks_like_plate_def is_clearly_uk_plate_def Let_def)
qed

lemma blue15_looks: "looks_like_plate blue15 (100, 450)"
  by (simp add: looks_like_plate_def blue15_def shapes_def percentage_gt_def)

lemma blue15_no_rows: "image_to_data blue15 i c = []"
  and blue15_no_text: "image_to_string blue15 i c = []"
  by (simp_all add: blue15_def shapes_def)

text \<open>
  C5. When the image looks like a plate to the visual heuristic and OCR yields no usable
  text (no row of any configuration is accepted, and the single-line text is blank),
  \<^verbatim>\<open>recognize_plate_number\<close> and \<^verbatim>\<open>direct_ocr_plate\<close> return the preset
  \<^verbatim>\<open>AA03 BOJ\<close>; and \<^verbatim>\<open>format_uk_plate\<close> returns \<^verbatim>\<open>AA03 BOJ\<close> for every text
  whose cleaned form matches \<^verbatim>\<open>AA[O0]3.*B[O0]J\<close>, whatever else it holds.
\<close>

theorem preset_plate:
  "(looks_like_plate P img
    \<and> (\<forall>config \<in> set uk_number_configs.
          \<forall>(conf, text) \<in> set (image_to_data P (main_plate_part P img) config).
            \<not> (conf > 0 \<and> text \<noteq> [] \<and> strip text \<noteq> []))
    \<and> strip (image_to_string P (main_plate_part P img) (uk_psm ''7'')) = []
    \<longrightarrow> recognize_plate_number P img = Inr ''AA03 BOJ'')
   \<and> (looks_like_plate P img
    \<and> (\<forall>config \<in> set uk_direct_configs.
          \<forall>(conf, text) \<in> set (image_to_data P
               (cv P (AdaptiveThreshold 255 ''ADAPTIVE_THRESH_GAUSSIAN_C'' ''THRESH_BINARY'' 11 2)
                  (cv P (CvtColor ''COLOR_BGR2GRAY'') img)) config).
            \<not> (conf > 10 \<and> text \<noteq> []))
    \<and> strip (image_to_string P (direct_plate_part P img) (uk_psm ''7'')) = []
    \<longrightarrow> direct_ocr_plate P img = Inr ''AA03 BOJ'')
   \<and> (re_search aa03_pattern (corrected_text text) \<longrightarrow> uk_format_uk_plate text = ''AA03 BOJ'')"
proof (intro conjI impI)
  assume a: "looks_like_plate P img
    \<and> (\<forall>config \<in> set uk_number_configs.
          \<forall>(conf, text) \<in> set (image_to_data P (main_plate_part P img) config).
            \<not> (conf > 0 \<and> text \<noteq> [] \<and> strip text \<noteq> []))
    \<and> strip (image_to_string P (main_plate_part P img) (uk_psm ''7'')) = []"
  then have "uk_config_loop P (main_plate_part P img) uk_number_configs ([], [], [])
      = ([], [], [] @ uk_number_configs)"
    by (intro uk_config_loop_rejected) simp
  moreover from a have "is_clearly_uk_plate P img = Inr True"
    by (simp add: looks_like_plate_clearly)
  ultimately show "recognize_plate_number P img = Inr ''AA03 BOJ''"
    using a by (simp add: recognize_plate_number_def recognize_plate_number_run_def py_bind_def)
next
  let ?thresh = "cv P (AdaptiveThreshold 255 ''ADAPTIVE_THRESH_GAUSSIAN_C'' ''THRESH_BINARY'' 11 2)
                  (cv P (CvtColor ''COLOR_BGR2GRAY'') img)"
  assume a: "looks_like_plate P img
    \<and> (\<forall>config \<in> set uk_direct_configs.
          \<forall>(conf, text) \<in> set (image_to_data P ?thresh config). \<not> (conf > 10 \<and> text \<noteq> []))
    \<and> strip (image_to_string P (direct_plate_part P img) (uk_psm ''7'')) = []"
  then have "direct_config_loop P ?thresh uk_direct_configs ([], 0) = ([], 0)"
    by (intro direct_config_loop_rejected) simp
  moreover from a have "is_clearly_uk_plate P img = Inr True"
    by (simp add: looks_like_plate_clearly)
  ultimately show "direct_ocr_plate P img = Inr ''AA03 BOJ''"
    using a by (simp add: direct_ocr_plate_def py_bind_def)
next
  assume "re_search aa03_pattern (corrected_text text)"
  then show "uk_format_uk_plate text = ''AA03 BOJ''"
    by (simp add: uk_format_uk_plate_def)
qed

text \<open>A blue-banded image of 450 by 100 pixels without text, and a text around the preset.\<close>

theorem preset_plate_witness:
  "recognize_plate_number blue15 (100, 450) = Inr ''AA03 BOJ''
   \<and> direct_ocr_plate blue15 (100, 450) = Inr ''AA03 BOJ''
   \<and> uk_format_uk_plate ''GB AA03 xyz BOJ 7'' = ''AA03 BOJ''"
proof -
  note preset = preset_plate [of blue15 "(100, 450)" "''GB AA03 xyz BOJ 7''"]
  have s: "strip [] = []" by (simp add: strip_def)
  have "recognize_plate_number blue15 (100, 450) = Inr ''AA03 BOJ''"
    using preset [THEN conjunct1] blue15_looks
    by (simp add: blue15_no_rows blue15_no_text s)
  moreover have "direct_ocr_plate blue15 (100, 450) = Inr ''AA03 BOJ''"
    using preset [THEN conjunct2, THEN conjunct1] blue15_looks
    by (simp add: blue15_no_rows blue15_no_text s)
  moreover have "re_search aa03_pattern (corrected_text ''GB AA03 xyz BOJ 7'')"
    by code_simp
  then have "uk_format_uk_plate ''GB AA03 xyz BOJ 7'' = ''AA03 BOJ''"
    using preset [THEN conjunct2, THEN conjunct2] by blast
  ultimately show ?thesis by simp
qed

section \<open>The plate extractor\<close>

lemma cv_round_25: "cv_round 25 = 25"
  by (simp add: cv_round_def)

text \<open>
  A region that reaches beyond the image is extracted all the same: the crop is clipped
  to the ten by ten pixels that lie in the image, and resized.
\<close>

theorem region_beyond_bounds_is_clipped:
  "boundingRect shapes corner_contour = (90, 90, 20, 20)
   \<and> shape shapes (100, 100) = (100, 100)
   \<and> (100 :: nat) < 90 + 20
   \<and> crop shapes (100, 100) 90 (90 + 20) 90 (90 + 20) = (10, 10)
   \<and> extract_plate shapes (100, 100) corner_contour = Some (25, 25)"
  by (simp add: extract_plate_def extract_plate_try_def shapes_def corner_contour_def cv_round_25)

text \<open>
  C2, as the code has it. For every image and every contour whose bounding rectangle has
  height zero, \<^verbatim>\<open>extract_plate\<close> returns \<^verbatim>\<open>None\<close>: the division by zero is caught.
  It returns \<^verbatim>\<open>None\<close> in exactly one other case, when resizing the cropped region
  raises; the bounds of the image are not checked.
\<close>

theorem extract_plate_failures:
  assumes "boundingRect P contour = (x, y, w, h)"
  shows "(h = 0 \<longrightarrow> extract_plate P img contour = None)
     \<and> (extract_plate P img contour = None \<longleftrightarrow>
          h = 0 \<or> (\<exists>e. resize P (crop P img y (y + h) x (x + w)) (50 / real h) (50 / real h)
                          = Inl e))"
  using assms
  by (auto simp: extract_plate_def extract_plate_try_def Let_def split: sum.splits)

text \<open>A region of height zero, and a region with no pixel in the image.\<close>

theorem extract_plate_failures_witness:
  "extract_plate shapes (100, 100) flat_contour = None
   \<and> extract_plate shapes (100, 100) far_contour = None"
proof -
  have flat: "boundingRect shapes flat_contour = (10, 10, 40, 0)"
    by (simp add: shapes_def flat_contour_def)
  have far: "boundingRect shapes far_contour = (150, 150, 40, 10)"
    by (simp add: shapes_def far_contour_def)
  have "extract_plate shapes (100, 100) flat_contour = None"
    using extract_plate_failures [OF flat, of "(100, 100)", THEN conjunct1] by simp
  moreover have "resize shapes (crop shapes (100, 100) 150 (150 + 10) 150 (150 + 40))
      (50 / real 10) (50 / real 10) = Inl CvError"
    by (simp add: shapes_def)
  then have "extract_plate shapes (100, 100) far_contour = None"
    using extract_plate_failures [OF far, of "(100, 100)", THEN conjunct2] by blast
  ultimately show ?thesis by simp
qed

section \<open>The region candidate detectors\<close>

lemma set_largest_first: "set (largest_first P k contours) \<subseteq> set contours"
proof -
  have "set (take k (sort_key (\<lambda>c. - contourArea P c) contours))
      \<subseteq> set (sort_key (\<lambda>c. - contourArea P c) contours)"
    by (rule set_take_subset)
  then show ?thesis by (simp add: largest_first_def)
qed

lemma contours_loop_admits:
  assumes "contours_loop P (real (ih * iw)) contours acc = Inr out"
    and "shape P original_image = (ih, iw)"
    and "c \<in> set out"
  shows "c \<in> set acc \<or> (c \<in> set contours \<and> contour_tests P original_image c)"
  using assms(1,3)
proof (induction contours arbitrary: acc)
  case Nil
  then show ?case by simp
next
  case (Cons contour contours)
  obtain x y w h where r: "boundingRect P contour = (x, y, w, h)"
    by (cases "boundingRect P contour") auto
  let ?area = "contourArea P contour"
  let ?band = "0.01 * real (ih * iw) < ?area \<and> ?area < 0.1 * real (ih * iw)"
  let ?ratio = "3.0 < real w / real h \<and> real w / real h < 6.0"
  show ?case
  proof (cases "?band \<and> h \<noteq> 0 \<and> ?ratio")
    case True
    then have "contours_loop P (real (ih * iw)) contours (acc @ [contour]) = Inr out"
      using Cons.prems(1) r by (simp add: Let_def)
    from Cons.IH [OF this Cons.prems(2)]
    have "c \<in> set (acc @ [contour])
        \<or> (c \<in> set contours \<and> contour_tests P original_image c)" .
    moreover have "contour_tests P original_image contour"
      using True r assms(2) by (simp add: contour_tests_def)
    ultimately show ?thesis by auto
  next
    case False
    then have "contours_loop P (real (ih * iw)) contours acc = Inr out"
      using Cons.prems(1) r by (auto simp: Let_def split: if_splits)
    from Cons.IH [OF this Cons.prems(2)] show ?thesis by auto
  qed
qed

lemma regions_loop_admits:
  assumes "regions_loop P img contours acc = Inr out"
    and "r \<in> set out"
  shows "r \<in> set acc \<or> (\<exists>c \<in> set contours. region_tests P img c r)"
  using assms
proof (induction contours arbitrary: acc)
  case Nil
  then show ?case by simp
next
  case (Cons contour contours)
  obtain x y w h where b: "boundingRect P contour = (x, y, w, h)"
    by (cases "boundingRect P contour") auto
  let ?approx = "approxPolyDP P contour (0.02 * arcLength P contour)"
  let ?ratio = "2.0 < real w / real h \<and> real w / real h < 7.0"
  let ?new = "(crop P img y (y + h) x (x + w), (x, y, w, h))"
  show ?case
  proof (cases "4 \<le> ?approx \<and> ?approx \<le> 6 \<and> h \<noteq> 0 \<and> ?ratio")
    case True
    then have "regions_loop P img contours (acc @ [?new]) = Inr out"
      using Cons.prems(1) b by (simp add: Let_def)
    from Cons.IH [OF this Cons.prems(2)]
    have "r \<in> set (acc @ [?new]) \<or> (\<exists>c \<in> set contours. region_tests P img c r)" .
    moreover have "region_tests P img contour ?new"
      using True b by (simp add: region_tests_def)
    ultimately show ?thesis by auto
  next
    case False
    then have "regions_loop P img contours acc = Inr out"
      using Cons.prems(1) b by (auto simp: Let_def split: if_splits)
    from Cons.IH [OF this Cons.prems(2)] show ?thesis by auto
  qed
qed

lemma uk_dilated_shape:
  assumes "\<forall>op i. shape P (cv P op i) = shape P i"
  shows "shape P (uk_dilated P img) = shape P img"
  using assms by (simp add: uk_dilated_def)

lemma within_image_shape:
  "shape P i = shape P j \<Longrightarrow> within_image P i box = within_image P j box"
  by (simp add: within_image_def)

lemma framed_scene_contours:
  "find_plate_contours framed_scene (100, 200) (100, 200) = Inr [plate_contour]"
  by (simp add: find_plate_contours_def largest_first_def framed_scene_def plate_contour_def
      shapes_def)

lemma framed_scene_regions:
  "detect_plate_regions framed_scene (100, 200) = Inr [((20, 90), (10, 10, 90, 20))]"
  by (simp add: detect_plate_regions_def uk_dilated_def largest_first_def framed_scene_def
      plate_contour_def shapes_def)

lemma framed_scene_found:
  "findContours framed_scene (uk_dilated framed_scene (100, 200)) m = [plate_contour]"
  by (simp add: framed_scene_def shapes_def uk_dilated_def)

lemma framed_scene_in_bounds:
  "\<forall>i mode. \<forall>c \<in> set (findContours framed_scene i mode).
     within_image framed_scene i (boundingRect framed_scene c)"
  by (auto simp: framed_scene_def shapes_def plate_contour_def within_image_def
      split: if_splits)

lemma framed_scene_filters: "\<forall>op i. shape framed_scene (cv framed_scene op i) = shape framed_scene i"
  by (simp add: framed_scene_def shapes_def)

text \<open>
  \<^verbatim>\<open>detect_plate_regions\<close> has no test of the area: it returns the region of a
  contour that lies within the image and encloses 5 of its 20000 pixels, far less than
  one percent.
\<close>

theorem region_outside_area_band:
  "detect_plate_regions speck_scene (100, 200) = Inr [((20, 90), (10, 10, 90, 20))]
   \<and> boundingRect speck_scene speck_contour = (10, 10, 90, 20)
   \<and> within_image speck_scene (100, 200) (boundingRect speck_scene speck_contour)
   \<and> contourArea speck_scene speck_contour = 5
   \<and> \<not> (0.01 * real (100 * 200) < contourArea speck_scene speck_contour)"
  by (simp add: detect_plate_regions_def largest_first_def speck_scene_def speck_contour_def
      shapes_def within_image_def)

text \<open>
  C4, as the code has it. Let the provider find its contours within the image it is
  given, and let its filters keep the shape of an image, as OpenCV does. Every contour
  that \<^verbatim>\<open>find_plate_contours\<close> returns for a preprocessed image of the shape of the
  original is one the provider found, its bounding rectangle lies within the original
  image and has a positive height, its area lies strictly between 1 and 10 percent of the
  area of the original image, and the width to height ratio of the rectangle lies
  strictly between 3.0 and 6.0. Every region that \<^verbatim>\<open>detect_plate_regions\<close> returns is
  the crop and the bounding rectangle of a contour the provider found, the rectangle lies
  within the image and has a positive height, the approximation has four to six vertices
  and the ratio lies strictly between 2.0 and 7.0; the area of the contour is not tested.
\<close>

theorem detector_admission:
  assumes found: "\<forall>i mode. \<forall>c \<in> set (findContours P i mode).
      within_image P i (boundingRect P c)"
    and filters: "\<forall>op i. shape P (cv P op i) = shape P i"
  shows "(find_plate_contours P img original_image = Inr plate_contours
          \<and> shape P img = shape P original_image \<longrightarrow>
      (\<forall>c \<in> set plate_contours.
         c \<in> set (findContours P img ''RETR_TREE'') \<and> admitted_contour P original_image c))
   \<and> (detect_plate_regions P img = Inr plate_regions \<longrightarrow>
      (\<forall>r \<in> set plate_regions.
         \<exists>c \<in> set (findContours P (uk_dilated P img) ''RETR_EXTERNAL'').
           admitted_region P img c r))"
proof -
  have "c \<in> set (findContours P img ''RETR_TREE'') \<and> admitted_contour P original_image c"
    if f: "find_plate_contours P img original_image = Inr plate_contours"
      and same: "shape P img = shape P original_image"
      and c: "c \<in> set plate_contours" for c
  proof -
    obtain ih iw where s: "shape P original_image = (ih, iw)"
      by (cases "shape P original_image") auto
    let ?cs = "largest_first P 20 (findContours P img ''RETR_TREE'')"
    from f s have "contours_loop P (real (ih * iw)) ?cs [] = Inr plate_contours"
      by (simp add: find_plate_contours_def)
    from contours_loop_admits [OF this s c]
    have top: "c \<in> set ?cs" and tests: "contour_tests P original_image c" by simp_all
    from set_largest_first top have member: "c \<in> set (findContours P img ''RETR_TREE'')"
      by (rule subsetD)
    from found [rule_format, OF member] have "within_image P img (boundingRect P c)" .
    with within_image_shape [OF same, of "boundingRect P c"]
    have "within_image P original_image (boundingRect P c)"
      by simp
    with tests member show ?thesis
      by (simp add: admitted_contour_def)
  qed
  moreover have "\<exists>c \<in> set (findContours P (uk_dilated P img) ''RETR_EXTERNAL'').
      admitted_region P img c r"
    if d: "detect_plate_regions P img = Inr plate_regions"
      and r: "r \<in> set plate_regions" for r
  proof -
    let ?found = "findContours P (uk_dilated P img) ''RETR_EXTERNAL''"
    let ?cs = "largest_first P 15 ?found"
    from d have "regions_loop P img ?cs [] = Inr plate_regions"
      by (simp add: detect_plate_regions_def)
    from regions_loop_admits [OF this r]
    obtain c where top: "c \<in> set ?cs" and tests: "region_tests P img c r" by auto
    from set_largest_first top have member: "c \<in> set ?found"
      by (rule subsetD)
    from found [rule_format, OF member]
    have "within_image P (uk_dilated P img) (boundingRect P c)" .
    with within_image_shape [OF uk_dilated_shape [OF filters, of img], of "boundingRect P c"]
    have "within_image P img (boundingRect P c)"
      by simp
    with tests member show ?thesis
      by (auto simp: admitted_region_def)
  qed
  ultimately show ?thesis by blast
qed

text \<open>The plate of 90 by 20 pixels, within an image of 200 by 100, passes both detectors.\<close>

theorem detector_admission_witness:
  "admitted_contour framed_scene (100, 200) plate_contour
   \<and> admitted_region framed_scene (100, 200) plate_contour ((20, 90), (10, 10, 90, 20))"
proof -
  note admission = detector_admission [OF framed_scene_in_bounds framed_scene_filters,
      of "(100, 200)" "(100, 200)" "[plate_contour]" "[((20, 90), (10, 10, 90, 20))]"]
  have "admitted_contour framed_scene (100, 200) plate_contour"
    using admission [THEN conjunct1] framed_scene_contours by simp
  moreover have "admitted_region framed_scene (100, 200) plate_contour
      ((20, 90), (10, 10, 90, 20))"
    using admission [THEN conjunct2] framed_scene_regions by (simp add: framed_scene_found)
  ultimately show ?thesis by simp
qed

section \<open>The OCR aggregators\<close>

subsection \<open>recognize\_plate\_number\<close>

lemma uk_rows_loop_filter:
  "uk_rows_loop rows (texts, confs) =
     (texts @ map (\<lambda>row. uk_format_uk_plate (snd row)) (filter uk_accepts rows),
      confs @ map fst (filter uk_accepts rows))"
proof (induction rows arbitrary: texts confs)
  case Nil
  then show ?case by simp
next
  case (Cons row rows)
  obtain conf t where row: "row = (conf, t)" by (cases row) auto
  show ?case
    by (simp add: row Cons.IH uk_accepts_def)
qed

lemma uk_config_loop_hypotheses:
  "uk_config_loop P pil configs (texts, confs, calls) =
     (texts @ map (\<lambda>row. uk_format_uk_plate (snd row)) (uk_hypotheses P pil configs),
      confs @ map fst (uk_hypotheses P pil configs),
      calls @ configs)"
proof (induction configs arbitrary: texts confs calls)
  case Nil
  then show ?case by (simp add: uk_hypotheses_def)
next
  case (Cons config configs)
  show ?case
    by (simp add: uk_rows_loop_filter Cons.IH uk_hypotheses_def Let_def)
qed

lemma py_max_Max:
  assumes "xs \<noteq> []"
  shows "py_max xs = Max (set xs)"
proof (cases xs)
  case Nil
  with assms show ?thesis by simp
next
  case (Cons a list)
  then show ?thesis
    using Max.set_eq_fold [of a list] by simp
qed

lemma index_of_first:
  assumes "v \<in> set xs"
  shows "index_of xs v < length xs \<and> xs ! index_of xs v = v
     \<and> (\<forall>j < index_of xs v. xs ! j \<noteq> v)"
  using assms
proof (induction xs)
  case Nil
  then show ?case by simp
next
  case (Cons x xs)
  show ?case
  proof (cases "x = v")
    case True
    then show ?thesis by simp
  next
    case False
    with Cons have ih: "index_of xs v < length xs \<and> xs ! index_of xs v = v
        \<and> (\<forall>j < index_of xs v. xs ! j \<noteq> v)"
      by simp
    have "(x # xs) ! j \<noteq> v" if "j < Suc (index_of xs v)" for j
      using that ih False by (cases j) simp_all
    with ih False show ?thesis by simp
  qed
qed

lemma first_best_index_of_max:
  assumes "confs \<noteq> []"
  shows "first_best confs (index_of confs (py_max confs))"
proof -
  let ?m = "Max (set confs)"
  have m: "py_max confs = ?m" using assms by (rule py_max_Max)
  have "?m \<in> set confs" using assms by simp
  from index_of_first [OF this]
  have i: "index_of confs ?m < length confs" "confs ! index_of confs ?m = ?m"
    and before: "\<forall>j < index_of confs ?m. confs ! j \<noteq> ?m"
    by simp_all
  have le: "confs ! j \<le> ?m" if "j < length confs" for j
    using that by simp
  have "confs ! j < ?m" if "j < index_of confs ?m" for j
  proof -
    from that i(1) have "j < length confs" by simp
    then have "confs ! j \<le> ?m" by (rule le)
    moreover from before that have "confs ! j \<noteq> ?m" by simp
    ultimately show ?thesis by simp
  qed
  with i le show ?thesis
    by (simp add: first_best_def m)
qed

lemma recognize_plate_number_run_best:
  assumes "recognize_plate_number_run P img = (res, calls)"
    and "uk_hypotheses P (main_plate_part P img) uk_number_configs = hs"
    and "hs \<noteq> []"
  shows "calls = uk_number_configs
     \<and> (\<exists>i. first_best (map fst hs) i \<and> res = Inr (uk_format_uk_plate (snd (hs ! i))))"
proof -
  let ?i = "index_of (map fst hs) (py_max (map fst hs))"
  have fb: "first_best (map fst hs) ?i"
    using assms(3) by (intro first_best_index_of_max) simp
  then have "?i < length hs" by (simp add: first_best_def)
  then have "map (\<lambda>row. uk_format_uk_plate (snd row)) hs ! ?i = uk_format_uk_plate (snd (hs ! ?i))"
    by simp
  with assms have "calls = uk_number_configs" and "res = Inr (uk_format_uk_plate (snd (hs ! ?i)))"
    by (simp_all add: recognize_plate_number_run_def uk_config_loop_hypotheses)
  with fb show ?thesis by blast
qed

lemma recognize_plate_number_run_calls:
  assumes "recognize_plate_number_run P img = (res, calls)"
  shows "take 4 calls = uk_number_configs"
proof -
  have "length uk_number_configs = 4" by (simp add: uk_number_configs_def)
  then show ?thesis
    using assms
    by (auto simp: recognize_plate_number_run_def uk_config_loop_hypotheses Let_def
        split: if_splits)
qed

subsection \<open>recognize\_plate\<close>

lemma pr_rows_loop_scan:
  "pr_rows_loop rows plate_img best =
     pr_scan (map (\<lambda>row. (fst row, snd row, plate_img)) (filter pr_accepts rows)) best"
proof (induction rows arbitrary: best)
  case Nil
  then show ?case by simp
next
  case (Cons row rows)
  obtain conf t where row: "row = (conf, t)" by (cases row) auto
  obtain bc bt bi where best: "best = (bc, bt, bi)" by (cases best) auto
  show ?case
    by (simp add: row best Cons.IH pr_accepts_def)
qed

lemma pr_scan_append: "pr_scan (xs @ ys) best = pr_scan ys (pr_scan xs best)"
proof (induction xs arbitrary: best)
  case Nil
  then show ?case by simp
next
  case (Cons h xs)
  obtain conf t p where h: "h = (conf, t, p)" by (cases h) auto
  obtain bc bt bi where best: "best = (bc, bt, bi)" by (cases best) auto
  show ?case
    by (simp add: h best Cons.IH)
qed

lemma pr_config_loop_scan:
  "pr_config_loop P (enhance_plate_image P plate_img) plate_img configs (best, calls) =
     (pr_scan (pr_plate_hypotheses P plate_img configs) best, calls @ configs)"
proof (induction configs arbitrary: best calls)
  case Nil
  then show ?case by (simp add: pr_plate_hypotheses_def)
next
  case (Cons config configs)
  show ?case
    by (simp add: Cons.IH pr_rows_loop_scan pr_plate_hypotheses_def pr_scan_append)
qed

lemma pr_contour_loop_scan:
  "pr_contour_loop P original contours (best, calls) =
     (pr_scan (pr_hypotheses P (extracted_plates P original contours)) best,
      calls @ concat (map (\<lambda>plate_img. pr_configs) (extracted_plates P original contours)))"
proof (induction contours arbitrary: best calls)
  case Nil
  then show ?case by (simp add: pr_hypotheses_def extracted_plates_def)
next
  case (Cons contour contours)
  show ?case
  proof (cases "extract_plate P original contour")
    case None
    then show ?thesis
      using Cons.IH by (simp add: extracted_plates_def map_filter_simps)
  next
    case (Some plate_img)
    then show ?thesis
      using Cons.IH
      by (simp add: extracted_plates_def map_filter_simps pr_config_loop_scan pr_hypotheses_def
          pr_scan_append)
  qed
qed

lemma pr_scan_best:
  assumes "pr_scan hs (bc, bt, bi) = (bc', bt', bi')"
  shows "((\<forall>j < length hs. fst (hs ! j) \<le> bc) \<and> bc' = bc \<and> bt' = bt \<and> bi' = bi)
     \<or> (\<exists>i. first_best (map fst hs) i \<and> bc < fst (hs ! i) \<and> bc' = fst (hs ! i)
            \<and> bt' = Some (fst (snd (hs ! i))) \<and> bi' = Some (snd (snd (hs ! i))))"
  using assms
proof (induction hs arbitrary: bc bt bi)
  case Nil
  then show ?case by simp
next
  case (Cons h hs)
  obtain conf t p where h: "h = (conf, t, p)" by (cases h) auto
  show ?case
  proof (cases "conf > bc")
    case True
    with Cons.prems h have run: "pr_scan hs (conf, Some t, Some p) = (bc', bt', bi')"
      by simp
    from Cons.IH [OF run] show ?thesis
    proof
      assume a: "(\<forall>j < length hs. fst (hs ! j) \<le> conf) \<and> bc' = conf \<and> bt' = Some t
          \<and> bi' = Some p"
      have "(conf # map fst hs) ! j \<le> conf" if "j < Suc (length hs)" for j
        using that a by (cases j) simp_all
      then have "first_best (map fst (h # hs)) 0"
        by (simp add: first_best_def h)
      with a True h show ?thesis by auto
    next
      assume "\<exists>i. first_best (map fst hs) i \<and> conf < fst (hs ! i) \<and> bc' = fst (hs ! i)
          \<and> bt' = Some (fst (snd (hs ! i))) \<and> bi' = Some (snd (snd (hs ! i)))"
      then obtain i where fb: "first_best (map fst hs) i" and lt: "conf < fst (hs ! i)"
        and r: "bc' = fst (hs ! i)" "bt' = Some (fst (snd (hs ! i)))"
          "bi' = Some (snd (snd (hs ! i)))"
        by blast
      from fb have i: "i < length hs" by (simp add: first_best_def)
      have le: "(conf # map fst hs) ! j \<le> fst (hs ! i)" if "j < Suc (length hs)" for j
        using that fb lt i by (cases j) (simp_all add: first_best_def)
      have less: "(conf # map fst hs) ! j < fst (hs ! i)" if "j < Suc i" for j
        using that fb lt i by (cases j) (simp_all add: first_best_def)
      from i le less have "first_best (map fst (h # hs)) (Suc i)"
        by (simp add: first_best_def h)
      moreover from True lt have "bc < fst ((h # hs) ! Suc i)" by simp
      ultimately show ?thesis using r by auto
    qed
  next
    case False
    with Cons.prems h have run: "pr_scan hs (bc, bt, bi) = (bc', bt', bi')"
      by simp
    from Cons.IH [OF run] show ?thesis
    proof
      assume a: "(\<forall>j < length hs. fst (hs ! j) \<le> bc) \<and> bc' = bc \<and> bt' = bt \<and> bi' = bi"
      have "fst ((h # hs) ! j) \<le> bc" if "j < length (h # hs)" for j
        using that a False h by (cases j) simp_all
      with a show ?thesis by blast
    next
      assume "\<exists>i. first_best (map fst hs) i \<and> bc < fst (hs ! i) \<and> bc' = fst (hs ! i)
          \<and> bt' = Some (fst (snd (hs ! i))) \<and> bi' = Some (snd (snd (hs ! i)))"
      then obtain i where fb: "first_best (map fst hs) i" and lt: "bc < fst (hs ! i)"
        and r: "bc' = fst (hs ! i)" "bt' = Some (fst (snd (hs ! i)))"
          "bi' = Some (snd (snd (hs ! i)))"
        by blast
      from fb have i: "i < length hs" by (simp add: first_best_def)
      from False lt have c: "conf < fst (hs ! i)" by simp
      have le: "(conf # map fst hs) ! j \<le> fst (hs ! i)" if "j < Suc (length hs)" for j
        using that fb c i by (cases j) (simp_all add: first_best_def)
      have less: "(conf # map fst hs) ! j < fst (hs ! i)" if "j < Suc i" for j
        using that fb c i by (cases j) (simp_all add: first_best_def)
      from i le less have "first_best (map fst (h # hs)) (Suc i)"
        by (simp add: first_best_def h)
      moreover from lt have "bc < fst ((h # hs) ! Suc i)" by simp
      ultimately show ?thesis using r by auto
    qed
  qed
qed

lemma strip_Nil: "strip [] = []"
  by (simp add: strip_def)

lemma pr_plate_hypotheses_accepted:
  assumes "h \<in> set (pr_plate_hypotheses P plate_img configs)"
  shows "0 < fst h \<and> fst (snd h) \<noteq> []"
proof -
  from assms obtain row where "pr_accepts row" and "h = (fst row, snd row, plate_img)"
    by (auto simp: pr_plate_hypotheses_def)
  then show ?thesis
    using strip_Nil by (auto simp: pr_accepts_def)
qed

lemma pr_hypotheses_accepted:
  assumes "h \<in> set (pr_hypotheses P plates)"
  shows "0 < fst h \<and> fst (snd h) \<noteq> []"
  using assms pr_plate_hypotheses_accepted by (fastforce simp: pr_hypotheses_def)

lemma recognize_plate_run_best:
  assumes run: "recognize_plate_run P img = Inr (res, calls)"
    and contours: "find_plate_contours P (preprocess_image P img) img = Inr contours"
    and plates: "extracted_plates P img contours = plates"
    and hs: "pr_hypotheses P plates = hs"
  shows "calls = concat (map (\<lambda>plate_img. pr_configs) plates)
     \<and> (if hs = [] then res = (None, None)
        else \<exists>i. first_best (map fst hs) i
               \<and> res = (Some (pr_format_uk_plate (fst (snd (hs ! i)))), Some (snd (snd (hs ! i)))))"
proof (cases "contours = []")
  case True
  with run contours have "res = (None, None)" and "calls = []"
    by (simp_all add: recognize_plate_run_def py_bind_def)
  moreover from True plates hs have "plates = []" and "hs = []"
    by (auto simp: extracted_plates_def pr_hypotheses_def map_filter_simps)
  ultimately show ?thesis by simp
next
  case False
  obtain bc bt bi where scan: "pr_scan hs (0, None, None) = (bc, bt, bi)"
    by (cases "pr_scan hs (0, None, None)") auto
  have loop: "pr_contour_loop P img contours ((0, None, None), []) =
      ((bc, bt, bi), concat (map (\<lambda>plate_img. pr_configs) plates))"
    using scan plates hs by (simp add: pr_contour_loop_scan)
  have calls: "calls = concat (map (\<lambda>plate_img. pr_configs) plates)"
    using run contours False loop
    by (auto simp: recognize_plate_run_def py_bind_def split: option.splits if_splits)
  from pr_scan_best [OF scan] show ?thesis
  proof
    assume a: "(\<forall>j < length hs. fst (hs ! j) \<le> 0) \<and> bc = 0 \<and> bt = None \<and> bi = None"
    have "hs = []"
    proof (rule ccontr)
      assume "hs \<noteq> []"
      then have "hs ! 0 \<in> set hs" and "0 < length hs" by simp_all
      with hs pr_hypotheses_accepted have "0 < fst (hs ! 0)" by blast
      with a \<open>0 < length hs\<close> show False by fastforce
    qed
    moreover have "res = (None, None)"
      using run contours False loop a
      by (simp add: recognize_plate_run_def py_bind_def)
    ultimately show ?thesis using calls by simp
  next
    assume "\<exists>i. first_best (map fst hs) i \<and> 0 < fst (hs ! i) \<and> bc = fst (hs ! i)
        \<and> bt = Some (fst (snd (hs ! i))) \<and> bi = Some (snd (snd (hs ! i)))"
    then obtain i where fb: "first_best (map fst hs) i"
      and r: "bt = Some (fst (snd (hs ! i)))" "bi = Some (snd (snd (hs ! i)))"
      by blast
    from fb have i: "i < length hs" by (simp add: first_best_def)
    then have "hs ! i \<in> set hs" by simp
    with hs pr_hypotheses_accepted have "fst (snd (hs ! i)) \<noteq> []" by blast
    then have "res = (Some (pr_format_uk_plate (fst (snd (hs ! i)))), Some (snd (snd (hs ! i))))"
      using run contours False loop r
      by (simp add: recognize_plate_run_def py_bind_def)
    moreover from i have "hs \<noteq> []" by auto
    ultimately show ?thesis using calls fb by auto
  qed
qed

subsection \<open>detect\_and\_recognize\_plate\<close>

lemma simple_config_loop_calls:
  "snd (simple_config_loop P plate_pil configs (best_text, calls)) =
     calls @ takeWhile (not_valid P plate_pil) configs
       @ take 1 (dropWhile (not_valid P plate_pil) configs)"
proof (induction configs arbitrary: best_text calls)
  case Nil
  then show ?case by simp
next
  case (Cons config configs)
  show ?case
    by (simp add: Cons.IH not_valid_def Let_def)
qed

lemma simple_config_loop_valid:
  assumes "dropWhile (not_valid P plate_pil) configs = config # rest"
  shows "fst (simple_config_loop P plate_pil configs (best_text, calls)) =
     simple_clean_and_format_plate (image_to_string P plate_pil config)"
  using assms
proof (induction configs arbitrary: best_text calls)
  case Nil
  then show ?case by simp
next
  case (Cons c configs)
  show ?case
  proof (cases "not_valid P plate_pil c")
    case True
    with Cons.prems have "dropWhile (not_valid P plate_pil) configs = config # rest"
      by simp
    from Cons.IH [OF this] True show ?thesis
      by (simp add: not_valid_def Let_def)
  next
    case False
    with Cons.prems have "c = config" by simp
    with False show ?thesis
      by (simp add: not_valid_def Let_def)
  qed
qed


subsection \<open>Which configurations run, and what is selected\<close>

lemmas scene_defs = shapes_def plate_contour_def largest_first_def

lemma quick_scene_found:
  "simple_find_contour quick_scene [plate_contour] = Inr (Some (10, 10, 90, 20))"
  by (simp add: quick_scene_def scene_defs)

lemma AB12CDE_cleaned: "simple_clean_and_format_plate ''AB12CDE'' = ''AB12 CDE''"
  by (simp add: eval_defs)

lemma AB12CDE_valid: "is_valid_uk_plate ''AB12 CDE''"
  by (simp add: is_valid_uk_plate_def eval_defs)

lemma first_best_60_90: "first_best [60, 90] i \<Longrightarrow> i = 1"
  by (cases i) (auto simp: first_best_def)

lemmas config_defs = uk_psm_def pr_psm_def simple_psm_def whitelist_36_def
  uk_number_configs_def pr_configs_def simple_configs_def

lemma strip_AB12CDE: "strip ''AB12CDE'' = ''AB12CDE''"
  and strip_XY34ZZZ: "strip ''XY34ZZZ'' = ''XY34ZZZ''"
  by (simp_all add: strip_def isspace_def code_def)

lemma two_readings_data:
  "image_to_data two_readings i (uk_psm ''7'') = [(60, ''AB12CDE'')]"
  "image_to_data two_readings i (uk_psm ''8'') = []"
  "image_to_data two_readings i (uk_psm ''6'') = [(90, ''XY34ZZZ'')]"
  "image_to_data two_readings i (uk_psm ''13'') = []"
  "image_to_data two_readings i (pr_psm ''7'') = [(60, ''AB12CDE'')]"
  "image_to_data two_readings i (pr_psm ''8'') = []"
  "image_to_data two_readings i (pr_psm ''13'') = [(90, ''XY34ZZZ'')]"
  by (simp_all add: two_readings_def shapes_def config_defs)

lemma two_readings_strings:
  "image_to_string two_readings i (simple_psm ''7'') = ''AB1''"
  "image_to_string two_readings i (simple_psm ''8'') = ''AB12CDE''"
  by (simp_all add: two_readings_def shapes_def config_defs)

lemma two_readings_uk_hypotheses:
  "uk_hypotheses two_readings i uk_number_configs = [(60, ''AB12CDE''), (90, ''XY34ZZZ'')]"
  by (simp add: uk_hypotheses_def uk_number_configs_def two_readings_data uk_accepts_def
      strip_AB12CDE strip_XY34ZZZ)

lemma two_readings_contours:
  "find_plate_contours two_readings i (100, 200) = Inr [plate_contour]"
  by (simp add: find_plate_contours_def two_readings_def scene_defs)

lemma two_readings_plates:
  "extracted_plates two_readings (100, 200) [plate_contour] = [(50, 225)]"
proof -
  have "cv_round 50 = 50" and "cv_round 225 = 225"
    by (simp_all add: cv_round_def)
  then have "extract_plate two_readings (100, 200) plate_contour = Some (50, 225)"
    by (simp add: extract_plate_def extract_plate_try_def two_readings_def scene_defs)
  then show ?thesis
    by (simp add: extracted_plates_def map_filter_simps)
qed

lemma two_readings_pr_hypotheses:
  "pr_hypotheses two_readings [(50, 225)] =
     [(60, ''AB12CDE'', (50, 225)), (90, ''XY34ZZZ'', (50, 225))]"
  by (simp add: pr_hypotheses_def pr_plate_hypotheses_def pr_configs_def two_readings_data
      pr_accepts_def strip_AB12CDE strip_XY34ZZZ)

lemma recognize_plate_run_returns:
  assumes "find_plate_contours P (preprocess_image P img) img = Inr contours"
  shows "\<exists>r c. recognize_plate_run P img = Inr (r, c)"
  using assms
  by (auto simp: recognize_plate_run_def py_bind_def Let_def split: prod.splits option.splits)

lemma XY34ZZZ_uk: "uk_format_uk_plate ''XY34ZZZ'' = ''XY34 ZZZ''"
  and XY34ZZZ_pr: "pr_format_uk_plate ''XY34ZZZ'' = ''XY34 ZZZ''"
  by (simp_all add: eval_defs)

lemma two_readings_not_valid:
  "not_valid two_readings i (simple_psm ''7'')"
  "\<not> not_valid two_readings i (simple_psm ''8'')"
  by (simp_all add: not_valid_def two_readings_strings AB12CDE_cleaned AB12CDE_valid
      is_valid_uk_plate_def eval_defs)

text \<open>
  \<^verbatim>\<open>detect_and_recognize_plate\<close> of simple\_detector.py leaves its loop at the first
  configuration whose cleaned text is a valid plate: of its three configurations only the
  first is run on a plate that every configuration reads.
\<close>

theorem simple_detector_stops_at_first_plate:
  "detect_and_recognize_plate_run quick_scene ''car.jpg'' =
     Inr ((Some ''AB12 CDE'', Some (100, 200)), [simple_psm ''7''])
   \<and> simple_configs = [simple_psm ''7'', simple_psm ''8'', simple_psm ''6'']"
proof -
  have a: "imread quick_scene ''car.jpg'' = Some (100, 200)"
    and b: "findContours quick_scene i m = [plate_contour]"
    and c: "cv quick_scene op i = i"
    and d: "image_to_string quick_scene i s = ''AB12CDE''"
    and e: "crop quick_scene (100, 200) 10 (10 + 20) 10 (10 + 90) = (20, 90)"
    and f: "largest_first quick_scene 10 [plate_contour] = [plate_contour]"
    for i m op s
    by (simp_all add: quick_scene_def scene_defs)
  show ?thesis
    by (simp add: detect_and_recognize_plate_run_def a b c d e f quick_scene_found py_bind_def
        simple_configs_def AB12CDE_cleaned AB12CDE_valid del: simple_find_contour.simps)
qed

text \<open>
  C7, as the code has it. \<^verbatim>\<open>recognize_plate_number\<close> runs its four configurations,
  in order, and when a row is accepted it returns the formatted text of the first
  hypothesis of highest confidence among the accepted rows of all four.
  \<^verbatim>\<open>recognize_plate\<close> runs its three configurations on every extracted plate, and
  returns nothing when no row is accepted and otherwise the formatted text and the plate
  of the first hypothesis of highest confidence among the accepted rows of all plates and
  configurations. The loop of \<^verbatim>\<open>detect_and_recognize_plate\<close> runs the configurations
  that give no valid plate and the first that gives one, whose cleaned text it returns,
  and none after it.
\<close>

theorem aggregator_runs:
  "(recognize_plate_number_run P img = (res, calls) \<longrightarrow>
      take 4 calls = uk_number_configs
      \<and> (uk_hypotheses P (main_plate_part P img) uk_number_configs \<noteq> [] \<longrightarrow>
           calls = uk_number_configs
           \<and> (\<exists>i. first_best (map fst (uk_hypotheses P (main_plate_part P img) uk_number_configs)) i
                \<and> res = Inr (uk_format_uk_plate
                    (snd (uk_hypotheses P (main_plate_part P img) uk_number_configs ! i))))))
   \<and> (recognize_plate_run P img = Inr (pres, pcalls)
       \<and> find_plate_contours P (preprocess_image P img) img = Inr contours \<longrightarrow>
      pcalls = concat (map (\<lambda>plate_img. pr_configs) (extracted_plates P img contours))
      \<and> (if pr_hypotheses P (extracted_plates P img contours) = [] then pres = (None, None)
         else \<exists>i. first_best (map fst (pr_hypotheses P (extracted_plates P img contours))) i
                \<and> pres =
                   (Some (pr_format_uk_plate
                      (fst (snd (pr_hypotheses P (extracted_plates P img contours) ! i)))),
                    Some (snd (snd (pr_hypotheses P (extracted_plates P img contours) ! i))))))
   \<and> (simple_config_loop P plate_pil configs ([], []) = (best_text, scalls) \<longrightarrow>
      scalls = takeWhile (not_valid P plate_pil) configs
                 @ take 1 (dropWhile (not_valid P plate_pil) configs)
      \<and> (\<forall>config rest. dropWhile (not_valid P plate_pil) configs = config # rest \<longrightarrow>
            best_text = simple_clean_and_format_plate (image_to_string P plate_pil config)))"
proof (intro conjI impI)
  assume "recognize_plate_number_run P img = (res, calls)"
  then show "take 4 calls = uk_number_configs"
    by (rule recognize_plate_number_run_calls)
next
  assume "recognize_plate_number_run P img = (res, calls)"
    and "uk_hypotheses P (main_plate_part P img) uk_number_configs \<noteq> []"
  from recognize_plate_number_run_best [OF this(1) refl this(2)]
  show "calls = uk_number_configs"
    and "\<exists>i. first_best (map fst (uk_hypotheses P (main_plate_part P img) uk_number_configs)) i
                \<and> res = Inr (uk_format_uk_plate
                    (snd (uk_hypotheses P (main_plate_part P img) uk_number_configs ! i)))"
    by simp_all
next
  assume a: "recognize_plate_run P img = Inr (pres, pcalls)
       \<and> find_plate_contours P (preprocess_image P img) img = Inr contours"
  from a recognize_plate_run_best [OF _ _ refl refl, of P img pres pcalls contours]
  show "pcalls = concat (map (\<lambda>plate_img. pr_configs) (extracted_plates P img contours))"
    and "if pr_hypotheses P (extracted_plates P img contours) = [] then pres = (None, None)
         else \<exists>i. first_best (map fst (pr_hypotheses P (extracted_plates P img contours))) i
                \<and> pres =
                   (Some (pr_format_uk_plate
                      (fst (snd (pr_hypotheses P (extracted_plates P img contours) ! i)))),
                    Some (snd (snd (pr_hypotheses P (extracted_plates P img contours) ! i))))"
    by simp_all
next
  assume a: "simple_config_loop P plate_pil configs ([], []) = (best_text, scalls)"
  from simple_config_loop_calls [of P plate_pil configs "[]" "[]"] a
  show "scalls = takeWhile (not_valid P plate_pil) configs
                 @ take 1 (dropWhile (not_valid P plate_pil) configs)"
    by simp
  show "\<forall>config rest. dropWhile (not_valid P plate_pil) configs = config # rest \<longrightarrow>
            best_text = simple_clean_and_format_plate (image_to_string P plate_pil config)"
  proof (intro allI impI)
    fix config rest
    assume "dropWhile (not_valid P plate_pil) configs = config # rest"
    from simple_config_loop_valid [OF this, of "[]" "[]"] a
    show "best_text = simple_clean_and_format_plate (image_to_string P plate_pil config)"
      by simp
  qed
qed

text \<open>
  The reading of higher confidence wins although a later configuration gives it, and the
  loop of simple\_detector.py stops at its second configuration.
\<close>

theorem aggregator_runs_witness:
  "recognize_plate_number_run two_readings (100, 450) = (Inr ''XY34 ZZZ'', uk_number_configs)
   \<and> recognize_plate_run two_readings (100, 200) =
       Inr ((Some ''XY34 ZZZ'', Some (50, 225)), pr_configs)
   \<and> simple_config_loop two_readings (20, 90) simple_configs ([], []) =
       (''AB12 CDE'', [simple_psm ''7'', simple_psm ''8''])"
proof (intro conjI)
  obtain res calls where run: "recognize_plate_number_run two_readings (100, 450) = (res, calls)"
    by (cases "recognize_plate_number_run two_readings (100, 450)") auto
  from aggregator_runs [where P = two_readings and img = "(100, 450)" and res = res
      and calls = calls, THEN conjunct1] run
  have calls: "calls = uk_number_configs"
    and "\<exists>i. first_best [60, 90] i
          \<and> res = Inr (uk_format_uk_plate (snd ([(60 :: real, ''AB12CDE''), (90, ''XY34ZZZ'')] ! i)))"
    by (simp_all add: two_readings_uk_hypotheses)
  then obtain i where "first_best [60, 90] i"
    and r: "res = Inr (uk_format_uk_plate (snd ([(60 :: real, ''AB12CDE''), (90, ''XY34ZZZ'')] ! i)))"
    by blast
  then have "i = 1" by (intro first_best_60_90)
  with r have "res = Inr ''XY34 ZZZ''" by (simp add: XY34ZZZ_uk)
  with calls run show "recognize_plate_number_run two_readings (100, 450) =
      (Inr ''XY34 ZZZ'', uk_number_configs)"
    by simp
next
  note contours = two_readings_contours [of "preprocess_image two_readings (100, 200)"]
  from recognize_plate_run_returns [OF contours]
  obtain pres pcalls where run: "recognize_plate_run two_readings (100, 200) = Inr (pres, pcalls)"
    by blast
  from aggregator_runs [where P = two_readings and img = "(100, 200)" and pres = pres
      and pcalls = pcalls and contours = "[plate_contour]", THEN conjunct2, THEN conjunct1] run contours
  have calls: "pcalls = pr_configs"
    and "\<exists>i. first_best [60, 90] i
          \<and> pres = (Some (pr_format_uk_plate (fst (snd
                ([(60 :: real, ''AB12CDE'', (50 :: nat, 225 :: nat)),
                  (90, ''XY34ZZZ'', (50, 225))] ! i)))),
              Some (snd (snd ([(60 :: real, ''AB12CDE'', (50 :: nat, 225 :: nat)),
                (90, ''XY34ZZZ'', (50, 225))] ! i))))"
    by (simp_all add: two_readings_plates two_readings_pr_hypotheses)
  then obtain i where "first_best [60, 90] i"
    and r: "pres = (Some (pr_format_uk_plate (fst (snd
                ([(60 :: real, ''AB12CDE'', (50 :: nat, 225 :: nat)),
                  (90, ''XY34ZZZ'', (50, 225))] ! i)))),
              Some (snd (snd ([(60 :: real, ''AB12CDE'', (50 :: nat, 225 :: nat)),
                (90, ''XY34ZZZ'', (50, 225))] ! i))))"
    by blast
  then have "i = 1" by (intro first_best_60_90)
  with r have "pres = (Some ''XY34 ZZZ'', Some (50, 225))" by (simp add: XY34ZZZ_pr)
  with calls run show "recognize_plate_run two_readings (100, 200) =
      Inr ((Some ''XY34 ZZZ'', Some (50, 225)), pr_configs)"
    by simp
next
  obtain best_text scalls
    where run: "simple_config_loop two_readings (20, 90) simple_configs ([], []) =
      (best_text, scalls)"
    by (cases "simple_config_loop two_readings (20, 90) simple_configs ([], [])") auto
  have d: "dropWhile (not_valid two_readings (20, 90)) simple_configs =
      [simple_psm ''8'', simple_psm ''6'']"
    and t: "takeWhile (not_valid two_readings (20, 90)) simple_configs = [simple_psm ''7'']"
    by (simp_all add: simple_configs_def two_readings_not_valid)
  from aggregator_runs [where P = two_readings and plate_pil = "(20, 90)"
      and configs = simple_configs and best_text = best_text and scalls = scalls,
      THEN conjunct2, THEN conjunct2] run
  have "scalls = takeWhile (not_valid two_readings (20, 90)) simple_configs
      @ take 1 (dropWhile (not_valid two_readings (20, 90)) simple_configs)"
    and "\<forall>config rest. dropWhile (not_valid two_readings (20, 90)) simple_configs
        = config # rest \<longrightarrow>
      best_text = simple_clean_and_format_plate (image_to_string two_readings (20, 90) config)"
    by simp_all
  with d t have "scalls = [simple_psm ''7'', simple_psm ''8'']"
    and "best_text = simple_clean_and_format_plate
      (image_to_string two_readings (20, 90) (simple_psm ''8''))"
    by simp_all
  with run show "simple_config_loop two_readings (20, 90) simple_configs ([], []) =
      (''AB12 CDE'', [simple_psm ''7'', simple_psm ''8''])"
    by (simp add: two_readings_strings AB12CDE_cleaned)
qed

end
